theory Spec2Isabelle
  imports Main "HOL-Library.Word" "HOL-Library.Sublist"
begin

unbundle bit_operations_syntax

section \<open>The 64x0 assembler (Drivers/64asm.cc)\<close>

text \<open>
  A shallow embedding of the assembler driver: the global tables become the fields of
  one state record that every function takes and returns, a thrown exception, a call of
  \<open>std::exit\<close> and an out-of-bounds \<open>memcpy\<close> become values of the type \<open>outcome\<close>, and
  the loops become recursive functions.
\<close>

subsection \<open>Characters and strings\<close>

text \<open>
  A byte of the output buffer is a \<open>char\<close>: both have 256 values.
  Modelled from the spec: the element type \<open>e64k_num_t\<close> of \<open>kBytes\<close> is declared in a
  header that is not among the sources; the spec calls the buffer a sequence of bytes.
\<close>

type_synonym byte = char

text \<open>\<open>isdigit\<close>, \<open>isalpha\<close>, \<open>isalnum\<close> and \<open>isspace\<close> of the C locale.\<close>

definition isdigit :: "char \<Rightarrow> bool" where
  "isdigit c = (let n = (of_char c :: nat) in 48 \<le> n \<and> n \<le> 57)"

definition isalpha :: "char \<Rightarrow> bool" where
  "isalpha c = (let n = (of_char c :: nat) in (65 \<le> n \<and> n \<le> 90) \<or> (97 \<le> n \<and> n \<le> 122))"

definition isalnum :: "char \<Rightarrow> bool" where
  "isalnum c = (isalpha c \<or> isdigit c)"

definition isspace :: "char \<Rightarrow> bool" where
  "isspace c = (let n = (of_char c :: nat) in n = 32 \<or> (9 \<le> n \<and> n \<le> 13))"

text \<open>
  \<open>s[i]\<close> of a \<open>std::string\<close>: the character at \<open>i\<close>, and the terminating null character
  at \<open>i = s.size()\<close>. The source also reads \<open>line[line_index + 3]\<close> one position further;
  it does so only in a conjunction whose other operand, read at \<open>s.size()\<close>, is then
  false, so the null character returned here for such an index decides nothing.
\<close>

definition str_at :: "string \<Rightarrow> nat \<Rightarrow> char" where
  "str_at s i = (if i < length s then s ! i else CHR 0x00)"

text \<open>\<open>s.find(needle)\<close>: the first position where \<open>needle\<close> occurs, \<open>None\<close> for \<open>npos\<close>.\<close>

primrec str_find :: "string \<Rightarrow> string \<Rightarrow> nat option" where
  "str_find needle [] = (if needle = [] then Some 0 else None)"
| "str_find needle (c # cs) =
     (if prefix needle (c # cs) then Some 0 else map_option Suc (str_find needle cs))"

text \<open>\<open>s.erase(s.find(c))\<close> for a character that occurs: everything before it is kept.\<close>

definition erase_from :: "char \<Rightarrow> string \<Rightarrow> string" where
  "erase_from c s = takeWhile (\<lambda>x. x \<noteq> c) s"

text \<open>\<open>s.erase(pos, n)\<close> for a position inside the string.\<close>

definition erase_at :: "nat \<Rightarrow> nat \<Rightarrow> string \<Rightarrow> string" where
  "erase_at pos n s = take pos s @ drop (pos + n) s"

text \<open>
  \<open>while (s.find(" ") != npos) s.erase(s.find(" "), 1)\<close> removes the first space until
  none is left: what remains is the other characters, in order.
\<close>

definition erase_spaces :: "string \<Rightarrow> string" where
  "erase_spaces s = filter (\<lambda>c. c \<noteq> CHR '' '') s"

text \<open>\<open>std::to_string\<close> of a \<open>size_t\<close>: the decimal digits.\<close>

function to_string :: "nat \<Rightarrow> string" where
  "to_string n =
     (if n < 10 then [char_of (48 + n)] else to_string (n div 10) @ [char_of (48 + n mod 10)])"
  by pat_completeness auto
termination
  by (relation "measure id") auto

declare to_string.simps [simp del]

subsection \<open>What ends a call other than a return\<close>

datatype outcome =
    Thrown string      \<comment> \<open>an exception, with its \<open>what()\<close>\<close>
  | Exited int         \<comment> \<open>\<open>std::exit(code)\<close>\<close>
  | Undefined string   \<comment> \<open>behaviour the language leaves undefined; the text names the place\<close>

subsection \<open>Data model\<close>

text \<open>
  \<open>AERecordHeader\<close> and \<open>AEHeader\<close> (NFC/AE.hxx). \<open>fName\<close> holds the bytes copied into the
  64-byte array, the remaining bytes being null; the padding arrays, which every path
  fills with \<open>kAEInvalidOpcode\<close>, are left out, and so are the fields \<open>fArch\<close>,
  \<open>fSubArch\<close> and \<open>fSize\<close> of the header, which no line of a source changes.
\<close>

record AERecordHeader =
  fName :: string
  fKind :: nat
  fSize :: nat
  fFlags :: nat
  fOffset :: nat

record AEHeader =
  fMagic :: string
  fCount :: nat
  fStartCode :: nat
  fCodeSize :: nat

definition kAESymbolLen :: nat where
  "kAESymbolLen = 64"

definition kAEInvalidOpcode :: nat where
  "kAEInvalidOpcode = 0"

definition kKindRelocationAtRuntime :: nat where
  "kKindRelocationAtRuntime = 0x34f"

text \<open>An entry of the opcode table \<open>kOpcodes64x0\<close>.\<close>

record opcode64x0 =
  opName :: string
  fOpcode :: byte
  fFunct3 :: byte
  fFunct7 :: byte

text \<open>
  The declarations that 64asm.cc takes from headers that are not among the sources
  (ParserKit.hpp, AsmKit/Arch/64x0.hpp, StdKit/PEF.hpp). The functions below take them
  as a parameter, so that what is proved holds for every value of them.
\<close>

record platform =
  find_word :: "string \<Rightarrow> string \<Rightarrow> bool"   \<comment> \<open>\<open>ParserKit::find_word(haystack, needle)\<close>\<close>
  kOpcodes64x0 :: "opcode64x0 list"
  kAsmNoArgs :: byte
  kAsmRegToReg :: byte
  kAsmImmediate :: byte
  kAsmRegisterLimit :: nat
  NumberCast :: "64 word \<Rightarrow> byte list"       \<comment> \<open>the \<open>number\<close> array of \<open>NumberCast(raw)\<close>\<close>
  kPefBaseOrigin :: "64 word"
  kPefCode :: nat
  kPefData :: nat
  kPefZero :: nat
  kAsmFileExts :: "string list"
  kObjectFileExt :: string
  sizeof_AEHeader :: nat
  sizeof_AERecordHeader :: nat

text \<open>
  The globals of 64asm.cc. \<open>errno_set\<close> is whether the C library's \<open>errno\<close> is non-zero
  (the source only tests that); \<open>diagnostics\<close> is what \<open>detail::print_error\<close> has printed,
  as pairs of file and reason. The verbose messages and warnings change no state and are
  left out. \<open>kOutputArch\<close> is initialised to \<open>kPefArch64000\<close> and never assigned, so the
  test \<open>kOutputArch == kPefArch64000\<close> is true.
\<close>

record asm_state =
  kOutputAsBinary :: bool
  kVerbose :: bool
  kErrorLimit :: "32 word"
  kAcceptableErrors :: "32 word"
  kCounter :: nat
  kOrigin :: "64 word"
  kOriginLabel :: "(string \<times> 64 word) list"
  kBytes :: "byte list"
  kCurrentRecord :: AERecordHeader
  kRecords :: "AERecordHeader list"
  kUndefinedSymbols :: "string list"
  errno_set :: bool
  diagnostics :: "(string \<times> string) list"

text \<open>The initial values of the globals, for a given initial \<open>errno\<close>.\<close>

definition initial_state :: "platform \<Rightarrow> bool \<Rightarrow> asm_state" where
  "initial_state P e =
     \<lparr> kOutputAsBinary = False, kVerbose = False, kErrorLimit = 10, kAcceptableErrors = 0,
       kCounter = 1, kOrigin = kPefBaseOrigin P, kOriginLabel = [], kBytes = [],
       kCurrentRecord = \<lparr> fName = [], fKind = kPefCode P, fSize = 0, fFlags = 0, fOffset = 0 \<rparr>,
       kRecords = [], kUndefinedSymbols = [], errno_set = e, diagnostics = [] \<rparr>"

subsection \<open>detail::print_error\<close>

text \<open>\<open>if (reason[0] == '\n') reason.erase(0, 1)\<close>.\<close>

definition erase_newline :: "string \<Rightarrow> string" where
  "erase_newline reason = (if str_at reason 0 = CHR 0x0A then erase_at 0 1 reason else reason)"

definition print_error :: "string \<Rightarrow> string \<Rightarrow> asm_state \<Rightarrow> outcome + asm_state" where
  "print_error reason file st =
     (let st1 = st\<lparr>diagnostics := diagnostics st @ [(file, erase_newline reason)]\<rparr>
      in if kAcceptableErrors st1 > kErrorLimit st1 then Inl (Exited 3)
         else Inr (st1\<lparr>kAcceptableErrors := kAcceptableErrors st1 + 1\<rparr>))"

text \<open>\<open>print_error(reason, file); throw std::runtime_error(what)\<close>.\<close>

definition fatal :: "string \<Rightarrow> string \<Rightarrow> string \<Rightarrow> asm_state \<Rightarrow> outcome + 'a" where
  "fatal reason file what st =
     (case print_error reason file st of Inl e \<Rightarrow> Inl e | Inr st1 \<Rightarrow> Inl (Thrown what))"

subsection \<open>strtoq\<close>

text \<open>
  \<open>strtoq(s, nullptr, base)\<close> of the C library, for a base from 2 to 36: leading white
  space, an optional sign, for base 16 an optional \<open>0x\<close>, then the longest run of digits
  of the base. The result is the value, clamped to the range of \<open>long long\<close>, and
  whether \<open>errno\<close> was set to \<open>ERANGE\<close> (only on clamping). No digits give 0.
\<close>

definition digit_val :: "char \<Rightarrow> nat option" where
  "digit_val c =
     (let n = (of_char c :: nat) in
      if 48 \<le> n \<and> n \<le> 57 then Some (n - 48)
      else if 97 \<le> n \<and> n \<le> 122 then Some (n - 87)
      else if 65 \<le> n \<and> n \<le> 90 then Some (n - 55)
      else None)"

fun strtoq_digits :: "nat \<Rightarrow> string \<Rightarrow> nat \<Rightarrow> nat" where
  "strtoq_digits b [] acc = acc"
| "strtoq_digits b (c # cs) acc =
     (case digit_val c of
        None \<Rightarrow> acc
      | Some d \<Rightarrow> if d < b then strtoq_digits b cs (acc * b + d) else acc)"

definition strtoq :: "string \<Rightarrow> nat \<Rightarrow> int \<times> bool" where
  "strtoq s base =
     (let s1 = dropWhile isspace s;
          neg = (str_at s1 0 = CHR ''-'');
          s2 = (if str_at s1 0 = CHR ''-'' \<or> str_at s1 0 = CHR ''+'' then drop 1 s1 else s1);
          s3 = (if base = 16 \<and> str_at s2 0 = CHR ''0''
                   \<and> (str_at s2 1 = CHR ''x'' \<or> str_at s2 1 = CHR ''X'')
                then drop 2 s2 else s2);
          n = int (strtoq_digits base s3 0)
      in if neg then
           (if n > 9223372036854775808 then (- 9223372036854775808, True) else (- n, False))
         else
           (if n > 9223372036854775807 then (9223372036854775807, True) else (n, False)))"

subsection \<open>PlatformAssembler64x0::WriteNumber\<close>

text \<open>
  One of the three prefixed cases: \<open>strtoq\<close> on \<open>jump_label.substr(pos + 2)\<close> in the
  given base; a zero result with \<open>errno\<close> set is fatal, otherwise the bytes of
  \<open>NumberCast\<close> are pushed.
\<close>

definition write_based ::
  "platform \<Rightarrow> string \<Rightarrow> string \<Rightarrow> nat \<Rightarrow> string \<Rightarrow> string \<Rightarrow> asm_state
     \<Rightarrow> outcome + (bool \<times> asm_state)" where
  "write_based P jump_label digits base msg what st =
     (let (res, erange) = strtoq digits base;
          st1 = st\<lparr>errno_set := errno_set st \<or> erange\<rparr>
      in if res = 0 \<and> errno_set st1 then fatal (msg @ jump_label) ''64asm'' what st1
         else Inr (True, st1\<lparr>kBytes := kBytes st1 @ NumberCast P (word_of_int res)\<rparr>))"

definition WriteNumber ::
  "platform \<Rightarrow> nat \<Rightarrow> string \<Rightarrow> asm_state \<Rightarrow> outcome + (bool \<times> asm_state)" where
  "WriteNumber P pos jump_label st =
     (if \<not> isdigit (str_at jump_label pos) then Inr (False, st)
      else if str_at jump_label (pos + 1) = CHR ''x'' then
        write_based P jump_label (drop (pos + 2) jump_label) 16
          ''invalid hex number: '' ''invalid_hex'' st
      else if str_at jump_label (pos + 1) = CHR ''b'' then
        write_based P jump_label (drop (pos + 2) jump_label) 2
          ''invalid binary number: '' ''invalid_bin'' st
      else if str_at jump_label (pos + 1) = CHR ''o'' then
        write_based P jump_label (drop (pos + 2) jump_label) 7
          ''invalid octal number: '' ''invalid_octal'' st
      else
        (let (res, erange) = strtoq (drop pos jump_label) 10;
             st1 = st\<lparr>errno_set := errno_set st \<or> erange\<rparr>
         in if res = 0 \<and> errno_set st1 then Inr (False, st1)
            else Inr (True, st1\<lparr>kBytes := kBytes st1 @ NumberCast P (word_of_int res)\<rparr>)))"

subsection \<open>detail::algorithm::is_valid\<close>

definition is_not_alnum_space :: "char \<Rightarrow> bool" where
  "is_not_alnum_space c =
     (\<not> (isalpha c \<or> isdigit c \<or> c = CHR '' '' \<or> c = CHR 0x09 \<or> c = CHR '',''
         \<or> c = CHR ''('' \<or> c = CHR '')'' \<or> c = CHR 0x22 \<or> c = CHR 0x27 \<or> c = CHR ''[''
         \<or> c = CHR '']'' \<or> c = CHR ''+'' \<or> c = CHR ''_'' \<or> c = CHR '':'' \<or> c = CHR ''@''
         \<or> c = CHR ''.''))"

definition is_valid :: "string \<Rightarrow> bool" where
  "is_valid str = (List.find is_not_alnum_space str = None)"

subsection \<open>PlatformAssembler64x0::CheckLine\<close>

definition non_alnum_error :: "string \<Rightarrow> string" where
  "non_alnum_error line =
     ''Line contains non alphanumeric characters.'' @ [CHR 0x0A] @ ''here -> '' @ line"

text \<open>The check of what follows the first comma; \<open>None\<close> when the line passes.\<close>

definition check_comma :: "string \<Rightarrow> string option" where
  "check_comma line =
     (case str_find '','' line of
        None \<Rightarrow> None
      | Some i \<Rightarrow>
          if i + 1 = length line then
            Some ([CHR 0x0A] @ ''instruction lacks right register, here -> '' @ drop i line)
          else if list_all (\<lambda>ch. \<not> (ch \<noteq> CHR '' '' \<and> ch \<noteq> CHR 0x09)) (drop (i + 1) line) then
            Some ([CHR 0x0A] @ ''instruction not complete, here -> '' @ line)
          else None)"

text \<open>
  The body of the loop over the opcode table, for the first entry whose name occurs in
  the line.
\<close>

definition check_opcode :: "platform \<Rightarrow> opcode64x0 \<Rightarrow> string \<Rightarrow> string" where
  "check_opcode P op line =
     (if fFunct7 op = kAsmNoArgs P then []
      else
        (let err1 = concat (map (\<lambda>op_inst.
                      if line = op_inst then
                        [CHR 0x0A] @ ''malformed '' @ op_inst @ '' instruction, here -> '' @ line
                      else []) [''stw'', ''ldw'', ''lda'', ''sta''])
         in if opName op \<notin> set [''jlr'', ''jrl'', ''int''] \<and> find_word P line (opName op)
               \<and> (case str_find (opName op) line of
                     None \<Rightarrow> False
                   | Some i \<Rightarrow> \<not> isspace (str_at line (i + length (opName op))))
            then err1 @ [CHR 0x0A] @ ''missing space between '' @ opName op
                   @ '' and operands.'' @ [CHR 0x0A] @ ''here -> '' @ line
            else err1))"

text \<open>\<open>CheckLine\<close> returns the error text and leaves the line, passed by reference, changed.\<close>

definition CheckLine :: "platform \<Rightarrow> string \<Rightarrow> string \<times> string" where
  "CheckLine P line =
     (if line = [] \<or> find_word P line ''import'' \<or> find_word P line ''export''
         \<or> find_word P line ''#'' \<or> find_word P line '';'' then
        (if str_find ''#'' line \<noteq> None then ([], erase_from (CHR ''#'') line)
         else if str_find '';'' line \<noteq> None then ([], erase_from (CHR '';'') line)
         else if \<not> is_valid line then (non_alnum_error line, line)
         else ([], line))
      else if \<not> is_valid line then (non_alnum_error line, line)
      else
        (case check_comma line of
           Some err \<Rightarrow> (err, line)
         | None \<Rightarrow>
             (case List.find (\<lambda>op. str_find (opName op) line \<noteq> None) (kOpcodes64x0 P) of
                Some op \<Rightarrow> (check_opcode P op line, line)
              | None \<Rightarrow> (''unrecognized instruction and operands: '' @ line, line))))"

subsection \<open>asm_read_attributes\<close>

text \<open>
  \<open>line.substr(line.find(kw) + strlen(kw))\<close>. Where \<open>find\<close> gives \<open>npos\<close>, the largest
  \<open>size_t\<close>, the sum wraps around to \<open>strlen(kw) - 1\<close>; \<open>substr\<close> throws
  \<open>std::out_of_range\<close> for a position beyond the size.
\<close>

definition substr_after :: "string \<Rightarrow> string \<Rightarrow> outcome + string" where
  "substr_after kw line =
     (let pos = (case str_find kw line of Some i \<Rightarrow> i + length kw | None \<Rightarrow> length kw - 1)
      in if pos > length line then Inl (Thrown ''std::out_of_range'') else Inr (drop pos line))"

text \<open>The section kind that the name selects; the current one stays where none does.\<close>

definition section_kind :: "platform \<Rightarrow> string \<Rightarrow> nat \<Rightarrow> nat" where
  "section_kind P name k =
     (let k1 = (if str_find ''.text'' name \<noteq> None then kPefCode P
                else if str_find ''.data'' name \<noteq> None then kPefData P
                else if str_find ''.page_zero'' name \<noteq> None then kPefZero P
                else k)
      in if name = ''__start'' then kPefCode P else k1)"

text \<open>
  \<open>name_copy.erase(name_copy.find(sec), strlen(sec))\<close> for the section that \<open>name\<close>
  contains; \<open>erase\<close> throws \<open>std::out_of_range\<close> where \<open>name_copy\<close> does not contain it.
\<close>

definition erase_section :: "string \<Rightarrow> string \<Rightarrow> outcome + string" where
  "erase_section sec name_copy =
     (case str_find sec name_copy of
        None \<Rightarrow> Inl (Thrown ''std::out_of_range'')
      | Some i \<Rightarrow> Inr (erase_at i (length sec) name_copy))"

definition strip_section :: "string \<Rightarrow> string \<Rightarrow> outcome + string" where
  "strip_section name name_copy =
     (if str_find ''.text'' name \<noteq> None then erase_section ''.text'' name_copy
      else if str_find ''.data'' name \<noteq> None then erase_section ''.data'' name_copy
      else if str_find ''.page_zero'' name \<noteq> None then erase_section ''.page_zero'' name_copy
      else Inr name_copy)"

text \<open>
  The end of both directives: the size of the last record becomes the length of the
  buffer, the name is copied into \<open>kCurrentRecord.fName\<close> (64 bytes: a longer name
  writes past the array), and \<open>kCurrentRecord\<close> is pushed.
\<close>

definition set_last_size :: "nat \<Rightarrow> AERecordHeader list \<Rightarrow> AERecordHeader list" where
  "set_last_size n recs =
     (if recs = [] then [] else butlast recs @ [(last recs)\<lparr>fSize := n\<rparr>])"

definition push_record :: "string \<Rightarrow> nat \<Rightarrow> asm_state \<Rightarrow> outcome + asm_state" where
  "push_record name kind st =
     (if length name > kAESymbolLen then Inl (Undefined ''memcpy past fName'')
      else
        (let cur = (kCurrentRecord st)\<lparr>fKind := kind, fName := name\<rparr>
         in Inr (st\<lparr>kCurrentRecord := cur,
                    kCounter := kCounter st + 1,
                    kRecords := set_last_size (length (kBytes st)) (kRecords st) @ [cur]\<rparr>)))"

definition mangle_import :: "string \<Rightarrow> string" where
  "mangle_import name = map (\<lambda>j. if j = CHR '' '' \<or> j = CHR '','' then CHR ''$'' else j) name"

definition mangle_export :: "string \<Rightarrow> string" where
  "mangle_export name = map (\<lambda>j. if j = CHR '' '' then CHR ''$'' else j) name"

definition read_import :: "platform \<Rightarrow> string \<Rightarrow> asm_state \<Rightarrow> outcome + asm_state" where
  "read_import P line st =
     (if kOutputAsBinary st then
        fatal ''invalid import directive in flat binary mode.'' ''64asm'' ''invalid_import_bin'' st
      else
        (case substr_after ''import '' line of
           Inl e \<Rightarrow> Inl e
         | Inr name0 \<Rightarrow>
             (let name = mangle_import name0;
                  result = to_string (length name0) @ '':ld:'' @ name
              in push_record result (section_kind P name (fKind (kCurrentRecord st))) st)))"

definition read_export :: "platform \<Rightarrow> string \<Rightarrow> asm_state \<Rightarrow> outcome + asm_state" where
  "read_export P line st =
     (if kOutputAsBinary st then
        fatal ''invalid export directive in flat binary mode.'' ''64asm'' ''invalid_export_bin'' st
      else
        (case substr_after ''export '' line of
           Inl e \<Rightarrow> Inl e
         | Inr name0 \<Rightarrow>
             (let name = mangle_export name0
              in case strip_section name name0 of
                   Inl e \<Rightarrow> Inl e
                 | Inr name_copy1 \<Rightarrow>
                     (let name_copy = erase_spaces name_copy1;
                          st1 = st\<lparr>kOriginLabel := kOriginLabel st @ [(name_copy, kOrigin st)],
                                   kOrigin := kOrigin st + 1\<rparr>
                      in push_record name (section_kind P name (fKind (kCurrentRecord st))) st1))))"

text \<open>The result \<open>true\<close> or \<open>false\<close> of the source is not used by its caller and is left out.\<close>

definition asm_read_attributes :: "platform \<Rightarrow> string \<Rightarrow> asm_state \<Rightarrow> outcome + asm_state" where
  "asm_read_attributes P line st =
     (if find_word P line ''import '' then read_import P line st
      else if find_word P line ''export '' then read_export P line st
      else Inr st)"

subsection \<open>PlatformAssembler64x0::WriteLine: the registers\<close>

text \<open>
  The loop over \<open>line_index\<close>. Its body reads the line from \<open>line_index\<close> onwards only,
  so the recursion runs over the rest of the line: \<open>c\<close> is \<open>line[line_index]\<close> and
  \<open>str_at rest k\<close> is \<open>line[line_index + 1 + k]\<close>. The register prefix
  \<open>kAsmRegisterPrefix\<close> is the letter of the source's own diagnostics, \<open>r\<close>. One or two
  digits never overflow \<open>strtoq\<close>, which leaves \<open>errno\<close> as it is.
\<close>

fun scan_registers ::
  "platform \<Rightarrow> string \<Rightarrow> string \<Rightarrow> asm_state \<Rightarrow> nat \<Rightarrow> outcome + (asm_state \<times> nat)" where
  "scan_registers P file [] st found_some = Inr (st, found_some)"
| "scan_registers P file (c # rest) st found_some =
     (if c = CHR ''r'' \<and> isdigit (str_at rest 0) then
        (let reg_str = str_at rest 0 # (if isdigit (str_at rest 1) then [str_at rest 1] else [])
         in if isdigit (str_at rest 2) \<and> isdigit (str_at rest 1) then
              fatal (''invalid register index, r'' @ reg_str @ [str_at rest 2] @ [CHR 0x0A]
                       @ ''note: The 64x0 accepts registers from r0 to r20.'')
                file ''invalid_register_index'' st
            else
              (let reg_index = nat (fst (strtoq reg_str 10))
               in if reg_index > kAsmRegisterLimit P then
                    fatal (''invalid register index, r'' @ reg_str) file
                      ''invalid_register_index'' st
                  else
                    scan_registers P file rest
                      (st\<lparr>kBytes := kBytes st @ [char_of reg_index]\<rparr>) (found_some + 1)))
      else scan_registers P file rest st found_some)"

text \<open>The checks on the number of registers found, in the order of the source.\<close>

definition check_registers ::
  "platform \<Rightarrow> opcode64x0 \<Rightarrow> string \<Rightarrow> string \<Rightarrow> nat \<Rightarrow> asm_state \<Rightarrow> outcome + asm_state" where
  "check_registers P op line file found_some st =
     (let name = opName op;
          comb = ''invalid combination of opcode and registers.'' @ [CHR 0x0A]
                   @ ''line: '' @ line
      in if fFunct7 op \<noteq> kAsmImmediate P \<and> found_some = 1 then
           fatal (''Unrecognized register found.'' @ [CHR 0x0A]
                    @ ''tip: each 64asm register starts with 'r'.'' @ [CHR 0x0A]
                    @ ''line: '' @ line) file ''not_a_register'' st
         else if found_some < 1 \<and> name \<noteq> ''ldw'' \<and> name \<noteq> ''lda'' \<and> name \<noteq> ''stw'' then
           fatal comb file ''invalid_comb_op_reg'' st
         else if found_some = 1 \<and> name = ''add'' then
           fatal comb file ''invalid_comb_op_reg'' st
         else if found_some = 1 \<and> name = ''dec'' then
           fatal comb file ''invalid_comb_op_reg'' st
         else if found_some > 0 \<and> name = ''pop'' then
           fatal (''invalid combination for opcode 'pop'.'' @ [CHR 0x0A]
                    @ ''tip: it expects nothing.'' @ [CHR 0x0A] @ ''line: '' @ line)
             file ''invalid_comb_op_pop'' st
         else Inr st)"

text \<open>The case \<open>kAsmRegToReg\<close>, \<open>kAsmImmediate\<close> of the switch on \<open>fFunct7\<close>.\<close>

definition write_registers ::
  "platform \<Rightarrow> opcode64x0 \<Rightarrow> string \<Rightarrow> string \<Rightarrow> asm_state \<Rightarrow> outcome + asm_state" where
  "write_registers P op line file st =
     (if fFunct7 op = kAsmRegToReg P \<or> fFunct7 op = kAsmImmediate P then
        (case scan_registers P file line st 0 of
           Inl e \<Rightarrow> Inl e
         | Inr (st1, found_some) \<Rightarrow> check_registers P op line file found_some st1)
      else Inr st)"

subsection \<open>PlatformAssembler64x0::WriteLine: the operand\<close>

text \<open>
  The loop that cuts \<open>jump_label\<close> after each comma and erases its spaces. An empty rest
  makes the source read \<open>jump_label[1]\<close>, past the terminating null character.
\<close>

function operand_loop :: "string \<Rightarrow> string \<Rightarrow> bool \<Rightarrow> asm_state \<Rightarrow> outcome + string" where
  "operand_loop file jump_label found_sym st =
     (case str_find '','' jump_label of
        None \<Rightarrow> Inr jump_label
      | Some i \<Rightarrow>
          (let jump_label1 = erase_spaces (drop (i + 1) jump_label)
           in if jump_label1 = [] then Inl (Undefined ''jump_label[1]'')
              else if str_at jump_label1 0 \<noteq> CHR ''r'' \<and> \<not> isdigit (str_at jump_label1 1) then
                (if found_sym then
                   fatal (''invalid combination of opcode and operands.'' @ [CHR 0x0A]
                            @ ''here -> '' @ jump_label1) file ''invalid_comb_op_ops'' st
                 else operand_loop file jump_label1 True st)
              else operand_loop file jump_label1 found_sym st))"
  by pat_completeness auto
termination
proof (relation "measure (\<lambda>(file, jump_label, found_sym, st). length jump_label)", goal_cases)
  case 1
  show ?case by simp
next
  case (2 f jump_label found_sym st i jump_label1)
  have "length (erase_spaces (drop (i + 1) jump_label)) \<le> length jump_label - (i + 1)"
    unfolding erase_spaces_def
    using length_filter_le [of "\<lambda>c. c \<noteq> CHR '' ''" "drop (i + 1) jump_label"] by simp
  moreover have "jump_label1 = erase_spaces (drop (i + 1) jump_label)"
    using 2 by simp
  moreover have "0 < length jump_label1"
    using 2 by simp
  ultimately have "length jump_label1 < length jump_label"
    by arith
  then show ?case by simp
next
  case (3 f jump_label found_sym st i jump_label1)
  have "length (erase_spaces (drop (i + 1) jump_label)) \<le> length jump_label - (i + 1)"
    unfolding erase_spaces_def
    using length_filter_le [of "\<lambda>c. c \<noteq> CHR '' ''" "drop (i + 1) jump_label"] by simp
  moreover have "jump_label1 = erase_spaces (drop (i + 1) jump_label)"
    using 3 by simp
  moreover have "0 < length jump_label1"
    using 3 by simp
  ultimately have "length jump_label1 < length jump_label"
    by arith
  then show ?case by simp
qed

declare operand_loop.simps [simp del]

text \<open>
  The loop entered where \<open>jump_label\<close> starts with a space: the first space is erased
  until the first character is alphanumeric or no space is left.
\<close>

function strip_loop :: "string \<Rightarrow> string" where
  "strip_loop jump_label =
     (case str_find '' '' jump_label of
        None \<Rightarrow> jump_label
      | Some i \<Rightarrow>
          if isalnum (str_at jump_label 0) \<or> isdigit (str_at jump_label 0) then jump_label
          else strip_loop (erase_at i 1 jump_label))"
  by pat_completeness auto
termination
proof (relation "measure length", goal_cases)
  case 1
  show ?case by simp
next
  case (2 jump_label i)
  have "str_find '' '' s = Some j \<Longrightarrow> j < length s" for s j
    by (induction s arbitrary: j) (auto split: if_splits)
  with 2 have "i < length jump_label" by blast
  then show ?case by (simp add: erase_at_def)
qed

declare strip_loop.simps [simp del]

subsection \<open>PlatformAssembler64x0::WriteLine: labels and relocations\<close>

text \<open>\<open>++kOrigin\<close> at \<open>asm_end_label_cpy\<close>.\<close>

definition asm_end_label_cpy :: "asm_state \<Rightarrow> asm_state" where
  "asm_end_label_cpy st = st\<lparr>kOrigin := kOrigin st + 1\<rparr>"

text \<open>
  The loop that copies \<open>mld_reloc_str\<close> into the buffer; the flag is
  \<open>ignore_back_slash\<close>.
\<close>

fun copy_reloc :: "string \<Rightarrow> bool \<Rightarrow> byte list" where
  "copy_reloc [] ignore_back_slash = []"
| "copy_reloc (reloc_chr # rest) ignore_back_slash =
     (if reloc_chr = CHR 0x5C then copy_reloc rest True
      else if ignore_back_slash then copy_reloc rest False
      else reloc_chr # copy_reloc rest False)"

definition write_reloc :: "string \<Rightarrow> string \<Rightarrow> asm_state \<Rightarrow> outcome + asm_state" where
  "write_reloc cpy_jump_label file st =
     (if length cpy_jump_label < 1 then
        fatal ''label is empty, can't jump on it.'' file ''label_empty'' st
      else
        (let mld_reloc_str = to_string (length cpy_jump_label) @ '':mld:'' @ cpy_jump_label
         in Inr (asm_end_label_cpy
                   (st\<lparr>kBytes := kBytes st @ copy_reloc mld_reloc_str False @ [CHR 0x00]\<rparr>))))"

text \<open>
  What follows the search of the label table where the label starts with \<open>0\<close>: up to two
  more calls of \<open>WriteNumber\<close>. Where the last one returns false, the source leaves the
  loop over the opcode table by \<open>break\<close>, without passing \<open>asm_end_label_cpy\<close>.
\<close>

definition write_zero_label ::
  "platform \<Rightarrow> string \<Rightarrow> string \<Rightarrow> asm_state \<Rightarrow> outcome + asm_state" where
  "write_zero_label P cpy_jump_label file st =
     (case (if str_at cpy_jump_label 1 = CHR ''x'' \<or> str_at cpy_jump_label 1 = CHR ''o''
               \<or> str_at cpy_jump_label 1 = CHR ''b''
            then WriteNumber P 0 cpy_jump_label st else Inr (False, st)) of
        Inl e \<Rightarrow> Inl e
      | Inr (True, st1) \<Rightarrow> Inr (asm_end_label_cpy st1)
      | Inr (False, st1) \<Rightarrow>
          if isdigit (str_at cpy_jump_label 0) then
            (case WriteNumber P 0 cpy_jump_label st1 of
               Inl e \<Rightarrow> Inl e
             | Inr (True, st2) \<Rightarrow> Inr (asm_end_label_cpy st2)
             | Inr (False, st2) \<Rightarrow> Inr st2)
          else write_reloc cpy_jump_label file st1)"

text \<open>From the label \<open>asm_write_label\<close> on.\<close>

definition asm_write_label ::
  "platform \<Rightarrow> string \<Rightarrow> string \<Rightarrow> string \<Rightarrow> asm_state \<Rightarrow> outcome + asm_state" where
  "asm_write_label P name cpy_jump_label0 file st =
     (let cpy_jump_label =
            (case str_find [CHR 0x0A] cpy_jump_label0 of
               Some i \<Rightarrow> erase_at i 1 cpy_jump_label0
             | None \<Rightarrow> cpy_jump_label0)
      in if str_find ''import'' cpy_jump_label \<noteq> None then
           (if name = ''sta'' then
              fatal ''import is not allowed on a sta operation.'' file ''import_sta_op'' st
            else Inr (asm_end_label_cpy st))
         else if name = ''lda'' \<or> name = ''sta'' then
           (case List.find (\<lambda>label. cpy_jump_label = fst label) (kOriginLabel st) of
              Some label \<Rightarrow>
                Inr (asm_end_label_cpy (st\<lparr>kBytes := kBytes st @ NumberCast P (snd label)\<rparr>))
            | None \<Rightarrow>
                if str_at cpy_jump_label 0 = CHR ''0'' then
                  write_zero_label P cpy_jump_label file st
                else write_reloc cpy_jump_label file st)
         else write_reloc cpy_jump_label file st)"

text \<open>The branch of \<open>stw\<close>, \<open>ldw\<close>, \<open>lda\<close> and \<open>sta\<close>, up to the jump to \<open>asm_write_label\<close>.\<close>

definition write_operand ::
  "platform \<Rightarrow> string \<Rightarrow> string \<Rightarrow> string \<Rightarrow> asm_state \<Rightarrow> outcome + asm_state" where
  "write_operand P name line file st =
     (case operand_loop file line False st of
        Inl e \<Rightarrow> Inl e
      | Inr cpy_jump_label \<Rightarrow>
          (let jump_label = (if str_at cpy_jump_label 0 = CHR '' '' then strip_loop cpy_jump_label
                            else cpy_jump_label)
           in case WriteNumber P 0 jump_label st of
                Inl e \<Rightarrow> Inl e
              | Inr (False, st1) \<Rightarrow>
                  if name = ''sta'' then
                    fatal (''invalid combination of opcode and operands.'' @ [CHR 0x0A]
                             @ ''here ->'' @ line) file ''invalid_comb_op_ops'' st1
                  else asm_write_label P name cpy_jump_label file st1
              | Inr (True, st1) \<Rightarrow>
                  if name = ''sta'' \<and> str_find ''import '' cpy_jump_label \<noteq> None then
                    fatal (''invalid usage import on 'sta', here: '' @ line) file
                      ''invalid_sta_usage'' st1
                  else asm_write_label P name cpy_jump_label file st1))"

subsection \<open>PlatformAssembler64x0::WriteLine\<close>

text \<open>The body of the loop over the opcode table, for the entry that matches the line.\<close>

definition WriteLine_opcode ::
  "platform \<Rightarrow> opcode64x0 \<Rightarrow> string \<Rightarrow> string \<Rightarrow> asm_state \<Rightarrow> outcome + asm_state" where
  "WriteLine_opcode P op line file st =
     (case write_registers P op line file
             (st\<lparr>kBytes := kBytes st @ [fOpcode op, fFunct3 op, fFunct7 op]\<rparr>) of
        Inl e \<Rightarrow> Inl e
      | Inr st1 \<Rightarrow>
          if opName op = ''stw'' \<or> opName op = ''ldw'' \<or> opName op = ''lda'' \<or> opName op = ''sta''
          then write_operand P (opName op) line file st1
          else Inr (asm_end_label_cpy st1))"

text \<open>The first entry of the table that the line matches.\<close>

definition match_opcode :: "platform \<Rightarrow> string \<Rightarrow> opcode64x0 option" where
  "match_opcode P line =
     List.find (\<lambda>op. find_word P line (opName op) \<and> is_valid line) (kOpcodes64x0 P)"

definition WriteLine :: "platform \<Rightarrow> string \<Rightarrow> string \<Rightarrow> asm_state \<Rightarrow> outcome + asm_state" where
  "WriteLine P line file st =
     (if find_word P line ''export '' then Inr st
      else
        (case match_opcode P line of
           None \<Rightarrow> Inr st
         | Some op \<Rightarrow> WriteLine_opcode P op line file st))"

subsection \<open>The compilation loop\<close>

text \<open>One turn of the loop over the lines of the input file.\<close>

definition compile_line :: "platform \<Rightarrow> string \<Rightarrow> string \<Rightarrow> asm_state \<Rightarrow> outcome + asm_state" where
  "compile_line P file line0 st =
     (case CheckLine P line0 of
        (ln, line) \<Rightarrow>
          if ln \<noteq> [] then print_error ln file st
          else
            (case asm_read_attributes P line st of
               Inl e \<Rightarrow> Inl e
             | Inr st1 \<Rightarrow> WriteLine P line file st1))"

fun compile_lines :: "platform \<Rightarrow> string \<Rightarrow> string list \<Rightarrow> asm_state \<Rightarrow> outcome + asm_state" where
  "compile_lines P file [] st = Inr st"
| "compile_lines P file (line # rest) st =
     (case compile_line P file line st of
        Inl e \<Rightarrow> Inl e
      | Inr st1 \<Rightarrow> compile_lines P file rest st1)"

subsection \<open>MPCC_MODULE(MPUXAssembler64000)\<close>

text \<open>
  What an invocation leaves behind: how it ended (\<open>Inr\<close> the value that the module
  returns), and the output files, by path. An output file is the header, the records and
  the code bytes written to it; a file that was created and not written is empty. The
  input files are a map from paths to lines; the output files are kept apart from them,
  and the stream of the output file is taken to open.
\<close>

record out_file =
  of_header :: "AEHeader option"
  of_records :: "AERecordHeader list"
  of_code :: "byte list"

record run_result =
  status :: "outcome + int"
  outputs :: "string \<rightharpoonup> out_file"

definition empty_file :: out_file where
  "empty_file = \<lparr> of_header = None, of_records = [], of_code = [] \<rparr>"

text \<open>The name of the output: every source extension erased, the object extension added.\<close>

fun erase_exts :: "string list \<Rightarrow> string \<Rightarrow> string" where
  "erase_exts [] object_output = object_output"
| "erase_exts (ext # exts) object_output =
     erase_exts exts
       (case str_find ext object_output of
          Some i \<Rightarrow> erase_at i (length ext) object_output
        | None \<Rightarrow> object_output)"

definition object_output_of :: "platform \<Rightarrow> string \<Rightarrow> string" where
  "object_output_of P arg = erase_exts (kAsmFileExts P) arg @ kObjectFileExt P"

text \<open>The loop over \<open>kRecords\<close> that writes each record, \<open>record_count\<close> counting up.\<close>

fun write_records :: "AERecordHeader list \<Rightarrow> nat \<Rightarrow> AERecordHeader list" where
  "write_records [] record_count = []"
| "write_records (rec # recs) record_count =
     rec\<lparr>fFlags := fFlags rec OR kKindRelocationAtRuntime, fOffset := record_count\<rparr>
       # write_records recs (record_count + 1)"

text \<open>
  The loop over \<open>kUndefinedSymbols\<close>; the fields that a symbol's record does not set
  are zero. A symbol longer than \<open>fName\<close> makes \<open>memcpy\<close> write past the array.
\<close>

fun write_symbols :: "string list \<Rightarrow> nat \<Rightarrow> outcome + AERecordHeader list" where
  "write_symbols [] record_count = Inr []"
| "write_symbols (symb # syms) record_count =
     (if length symb > kAESymbolLen then Inl (Undefined ''memcpy past fName'')
      else
        (case write_symbols syms (record_count + 1) of
           Inl e \<Rightarrow> Inl e
         | Inr recs \<Rightarrow>
             Inr (\<lparr> fName = symb, fKind = kAEInvalidOpcode, fSize = length symb, fFlags = 0,
                    fOffset = record_count \<rparr> # recs)))"

text \<open>What follows the loop over the lines, where no exception was thrown.\<close>

definition write_output :: "platform \<Rightarrow> string \<Rightarrow> asm_state \<Rightarrow> run_result" where
  "write_output P object_output st =
     (if \<not> kOutputAsBinary st then
        (if kRecords st = [] then \<lparr> status = Inr (- 1), outputs = Map.empty \<rparr>
         else
           (let recs = write_records (set_last_size (length (kBytes st)) (kRecords st)) 0
            in case write_symbols (kUndefinedSymbols st) (length recs + 1) of
                 Inl e \<Rightarrow> \<lparr> status = Inl e, outputs = [object_output \<mapsto> empty_file] \<rparr>
               | Inr syms \<Rightarrow>
                   \<lparr> status = Inr 0,
                     outputs = [object_output \<mapsto>
                       \<lparr> of_header = Some
                           \<lparr> fMagic = ''AE'',
                             fCount = length (kRecords st) + length (kUndefinedSymbols st),
                             fStartCode = sizeof_AEHeader P
                               + (length recs + length syms) * sizeof_AERecordHeader P,
                             fCodeSize = length (kBytes st) \<rparr>,
                         of_records = recs @ syms,
                         of_code = kBytes st \<rparr>] \<rparr>))
      else
        \<lparr> status = Inr 0,
          outputs = [object_output \<mapsto>
            \<lparr> of_header = None, of_records = [], of_code = kBytes st \<rparr>] \<rparr>)"

text \<open>
  The body of the loop over the arguments for an argument that names an existing file:
  every path through it leaves the module. An exception deletes the output and returns
  -1; \<open>std::exit\<close> leaves the output as it was created.
\<close>

definition compile_file :: "platform \<Rightarrow> string \<Rightarrow> string list \<Rightarrow> asm_state \<Rightarrow> run_result" where
  "compile_file P arg lines st =
     (case compile_lines P arg lines st of
        Inl (Thrown what) \<Rightarrow> \<lparr> status = Inr (- 1), outputs = Map.empty \<rparr>
      | Inl (Exited code) \<Rightarrow>
          \<lparr> status = Inl (Exited code), outputs = [object_output_of P arg \<mapsto> empty_file] \<rparr>
      | Inl (Undefined place) \<Rightarrow>
          \<lparr> status = Inl (Undefined place), outputs = [object_output_of P arg \<mapsto> empty_file] \<rparr>
      | Inr st1 \<Rightarrow> write_output P (object_output_of P arg) st1)"

text \<open>
  The loop over \<open>argv[1]\<close>, \<open>argv[2]\<close>, ...: an option continues with the next argument
  (or returns, for the version and the help), any other argument is compiled and ends
  the module. After the last argument the loop falls into \<open>asm_fail_exit\<close>.
\<close>

fun main_loop ::
  "platform \<Rightarrow> string list \<Rightarrow> (string \<rightharpoonup> string list) \<Rightarrow> asm_state \<Rightarrow> run_result" where
  "main_loop P [] files st = \<lparr> status = Inr (- 1), outputs = Map.empty \<rparr>"
| "main_loop P (arg # args) files st =
     (if str_at arg 0 = CHR ''-'' then
        (if arg = ''-version'' \<or> arg = ''-v'' then \<lparr> status = Inr 0, outputs = Map.empty \<rparr>
         else if arg = ''-h'' then \<lparr> status = Inr 0, outputs = Map.empty \<rparr>
         else if arg = ''-binary'' then main_loop P args files (st\<lparr>kOutputAsBinary := True\<rparr>)
         else if arg = ''-verbose'' then main_loop P args files (st\<lparr>kVerbose := True\<rparr>)
         else main_loop P args files st)
      else
        (case files arg of
           None \<Rightarrow> \<lparr> status = Inr (- 1), outputs = Map.empty \<rparr>
         | Some lines \<Rightarrow> compile_file P arg lines st))"

definition MPUXAssembler64000 ::
  "platform \<Rightarrow> string list \<Rightarrow> (string \<rightharpoonup> string list) \<Rightarrow> bool \<Rightarrow> run_result" where
  "MPUXAssembler64000 P argv files e = main_loop P (drop 1 argv) files (initial_state P e)"

subsection \<open>An instance of the missing declarations\<close>

text \<open>
  Modelled from the spec: \<open>ParserKit::find_word\<close> is not among the sources; the spec
  speaks of a mnemonic that "occurs in the line", which is the occurrence of the needle
  in the haystack.
\<close>

definition find_word_spec :: "string \<Rightarrow> string \<Rightarrow> bool" where
  "find_word_spec haystack needle = (str_find needle haystack \<noteq> None)"

text \<open>
  Modelled from the spec: \<open>NumberCast\<close> is not among the sources; the spec asks for the
  fixed-width raw bytes of the integer, little-endian, of the width of the 64-bit word.
\<close>

definition NumberCast_spec :: "64 word \<Rightarrow> byte list" where
  "NumberCast_spec raw = map (\<lambda>i. char_of (unat (drop_bit (8 * i) raw))) [0, 1, 2, 3, 4, 5, 6, 7]"

text \<open>
  Modelled from the spec: an instance of the platform for evaluating the functions on
  concrete input, with the register limit 20 of the spec ("indices 0-20 are valid"). The
  opcode table, the tags, the kinds, the base origin, the extensions and the sizes are not
  given by the spec; the values here stand for them, the three tags and the three kinds
  distinct, and the kinds distinct from the invalid-opcode sentinel.
\<close>

definition example_opcodes :: "opcode64x0 list" where
  "example_opcodes =
     [ \<lparr> opName = ''nop'', fOpcode = CHR 0x00, fFunct3 = CHR 0x00, fFunct7 = CHR 0x00 \<rparr>,
       \<lparr> opName = ''mv'',  fOpcode = CHR 0x23, fFunct3 = CHR 0x05, fFunct7 = CHR 0x02 \<rparr>,
       \<lparr> opName = ''lda'', fOpcode = CHR 0x0F, fFunct3 = CHR 0x05, fFunct7 = CHR 0x01 \<rparr>,
       \<lparr> opName = ''sta'', fOpcode = CHR 0x0F, fFunct3 = CHR 0x01, fFunct7 = CHR 0x01 \<rparr>,
       \<lparr> opName = ''add'', fOpcode = CHR 0x2B, fFunct3 = CHR 0x04, fFunct7 = CHR 0x01 \<rparr> ]"

definition example_platform :: platform where
  "example_platform =
     \<lparr> find_word = find_word_spec,
       kOpcodes64x0 = example_opcodes,
       kAsmNoArgs = CHR 0x00,
       kAsmRegToReg = CHR 0x02,
       kAsmImmediate = CHR 0x01,
       kAsmRegisterLimit = 20,
       NumberCast = NumberCast_spec,
       kPefBaseOrigin = 0x1000000,
       kPefCode = 0xC,
       kPefData = 0xD,
       kPefZero = 0xE,
       kAsmFileExts = [''.64x'', ''.s''],
       kObjectFileExt = ''.o'',
       sizeof_AEHeader = 37,
       sizeof_AERecordHeader = 104 \<rparr>"

subsection \<open>The lines of a source, as the properties speak of them\<close>

text \<open>
  A line is read as an \<open>export\<close> directive where it passes \<open>CheckLine\<close> and
  \<open>asm_read_attributes\<close> takes its second branch; it is read as a directive where it takes
  the first or the second; it is encoded where it passes \<open>CheckLine\<close> and \<open>WriteLine\<close>
  finds an entry of the opcode table for it.
\<close>

definition is_export_line :: "platform \<Rightarrow> string \<Rightarrow> bool" where
  "is_export_line P l =
     (fst (CheckLine P l) = [] \<and> \<not> find_word P (snd (CheckLine P l)) ''import ''
      \<and> find_word P (snd (CheckLine P l)) ''export '')"

definition is_directive_line :: "platform \<Rightarrow> string \<Rightarrow> bool" where
  "is_directive_line P l =
     (fst (CheckLine P l) = [] \<and> (find_word P (snd (CheckLine P l)) ''import ''
      \<or> find_word P (snd (CheckLine P l)) ''export ''))"

definition is_encoded_line :: "platform \<Rightarrow> string \<Rightarrow> bool" where
  "is_encoded_line P l =
     (fst (CheckLine P l) = [] \<and> \<not> find_word P (snd (CheckLine P l)) ''export ''
      \<and> match_opcode P (snd (CheckLine P l)) \<noteq> None)"

text \<open>The lines of a source that fail validation: those for which \<open>CheckLine\<close> returns an error.\<close>

definition failing_lines :: "platform \<Rightarrow> string list \<Rightarrow> string list" where
  "failing_lines P ls = filter (\<lambda>l. fst (CheckLine P l) \<noteq> []) ls"

text \<open>
  The lines that advance the origin counter, and the ordinals that the \<open>export\<close>
  directives of a source store, from a given value of the counter.
\<close>

definition origin_ticks :: "platform \<Rightarrow> string list \<Rightarrow> nat" where
  "origin_ticks P ls = length (filter (\<lambda>l. is_export_line P l \<or> is_encoded_line P l) ls)"

fun export_ordinals :: "platform \<Rightarrow> 64 word \<Rightarrow> string list \<Rightarrow> 64 word list" where
  "export_ordinals P origin [] = []"
| "export_ordinals P origin (l # ls) =
     (if is_export_line P l then [origin] else [])
       @ export_ordinals P (origin + of_nat (origin_ticks P [l])) ls"

text \<open>
  The register tokens of a line, as the spec speaks of them: at every \<open>r\<close> that a digit
  follows, the digits that follow it, up to three; the number that a token writes; and
  the tokens that are accepted, of one or two digits and within the register limit.
\<close>

definition dec_value :: "string \<Rightarrow> nat" where
  "dec_value t = foldl (\<lambda>a c. a * 10 + (of_char c - 48)) 0 t"

fun register_tokens :: "string \<Rightarrow> string list" where
  "register_tokens [] = []"
| "register_tokens (c # rest) =
     (if c = CHR ''r'' \<and> isdigit (str_at rest 0) then [takeWhile isdigit (take 3 rest)] else [])
       @ register_tokens rest"

definition register_ok :: "platform \<Rightarrow> string \<Rightarrow> bool" where
  "register_ok P t = (length t \<le> 2 \<and> dec_value t \<le> kAsmRegisterLimit P)"




subsection \<open>What encoding a line changes\<close>

text \<open>
  \<open>emits st st'\<close>: the state \<open>st'\<close> is \<open>st\<close> with bytes added to the buffer and, possibly,
  \<open>errno\<close> set. \<open>encodes st st'\<close>: such a state, with the origin counter advanced by one, or
  left as it is where \<open>errno\<close> is set (the \<open>break\<close> after a failed \<open>WriteNumber\<close>).
\<close>

definition emits :: "asm_state \<Rightarrow> asm_state \<Rightarrow> bool" where
  "emits st st' =
     (\<exists>bs e. (errno_set st \<longrightarrow> e) \<and> st' = st\<lparr>kBytes := kBytes st @ bs, errno_set := e\<rparr>)"

definition encodes :: "asm_state \<Rightarrow> asm_state \<Rightarrow> bool" where
  "encodes st st' =
     (\<exists>st1. emits st st1 \<and> (st' = asm_end_label_cpy st1 \<or> (st' = st1 \<and> errno_set st1)))"

section \<open>Properties\<close>

subsection \<open>Unfolding the definitions\<close>

lemmas char_defs = isdigit_def isalpha_def isalnum_def isspace_def is_not_alnum_space_def

lemmas example_defs = example_platform_def example_opcodes_def find_word_spec_def
  NumberCast_spec_def

lemmas directive_defs = asm_read_attributes_def read_import_def read_export_def
  substr_after_def mangle_import_def mangle_export_def strip_section_def erase_section_def
  erase_at_def erase_spaces_def push_record_def kAESymbolLen_def section_kind_def

lemmas check_defs = CheckLine_def is_valid_def non_alnum_error_def check_comma_def
  check_opcode_def erase_from_def str_at_def

lemmas encode_defs = WriteLine_def match_opcode_def WriteLine_opcode_def write_registers_def
  check_registers_def write_operand_def asm_write_label_def write_zero_label_def
  write_reloc_def asm_end_label_cpy_def WriteNumber_def write_based_def strtoq_def
  digit_val_def print_error_def fatal_def erase_newline_def

lemmas output_defs = MPUXAssembler64000_def compile_file_def write_output_def
  object_output_of_def set_last_size_def kKindRelocationAtRuntime_def kAEInvalidOpcode_def
  empty_file_def initial_state_def

lemmas run_defs = compile_line_def check_defs directive_defs char_defs example_defs encode_defs
  initial_state_def Let_def char_of_def bit_Suc_0_iff

subsection \<open>The radix of a numeric literal\<close>

text \<open>
  Claim C2. The literals \<open>0x2A\<close> and \<open>0b101010\<close> push the bytes of 42, as the decimal
  literal \<open>42\<close> does. The literal \<open>0o52\<close> does not: the case \<open>'o'\<close> calls \<open>strtoq\<close> with
  base 7, although its messages speak of an octal, base 8 number, and \<open>52\<close> read in base
  7 is 37. The bytes of 37 and of 42 differ for the little-endian \<open>NumberCast\<close>.
\<close>

theorem WriteNumber_0o52_is_37:
  "WriteNumber P 0 ''0o52'' st = Inr (True, st\<lparr>kBytes := kBytes st @ NumberCast P 37\<rparr>)
   \<and> WriteNumber P 0 ''42'' st = Inr (True, st\<lparr>kBytes := kBytes st @ NumberCast P 42\<rparr>)
   \<and> WriteNumber P 0 ''0x2A'' st = Inr (True, st\<lparr>kBytes := kBytes st @ NumberCast P 42\<rparr>)
   \<and> WriteNumber P 0 ''0b101010'' st = Inr (True, st\<lparr>kBytes := kBytes st @ NumberCast P 42\<rparr>)
   \<and> NumberCast_spec 37 \<noteq> NumberCast_spec 42"
  by (simp add: WriteNumber_def write_based_def strtoq_def str_at_def isdigit_def isspace_def
      digit_val_def NumberCast_spec_def)

text \<open>
  Claim C10. The radix is chosen by the second character alone and the leading digit adds
  nothing to the value: \<open>5x2A\<close> and \<open>5b101010\<close> push the bytes of 42. For \<open>o\<close> the radix
  is 7, not the octal that the character names: \<open>5o52\<close> pushes the bytes of 37.
\<close>

theorem WriteNumber_5o52_is_37:
  "WriteNumber P 0 ''5o52'' st = Inr (True, st\<lparr>kBytes := kBytes st @ NumberCast P 37\<rparr>)
   \<and> WriteNumber P 0 ''5x2A'' st = Inr (True, st\<lparr>kBytes := kBytes st @ NumberCast P 42\<rparr>)
   \<and> WriteNumber P 0 ''5b101010'' st = Inr (True, st\<lparr>kBytes := kBytes st @ NumberCast P 42\<rparr>)"
  by (simp add: WriteNumber_def write_based_def strtoq_def str_at_def isdigit_def isspace_def
      digit_val_def)

subsection \<open>The error limit\<close>

lemma compile_lines_append:
  "compile_lines P f (xs @ ys) st =
     (case compile_lines P f xs st of Inl e \<Rightarrow> Inl e | Inr st1 \<Rightarrow> compile_lines P f ys st1)"
  by (induction xs arbitrary: st) (auto split: sum.splits)

lemma compile_line_invalid:
  "fst (CheckLine P l) \<noteq> [] \<Longrightarrow>
     compile_line P f l st = print_error (fst (CheckLine P l)) f st"
  by (cases "CheckLine P l") (simp add: compile_line_def)

text \<open>
  A run of lines that all fail validation, from any value of the counter up to one above
  the limit: the run goes on while the counter before a failure is at most the limit.
\<close>

lemma compile_lines_failures:
  assumes "list_all (\<lambda>l. fst (CheckLine P l) \<noteq> []) ls"
    and "unat (kErrorLimit st) + 1 < 2 ^ 32"
    and "unat (kAcceptableErrors st) \<le> unat (kErrorLimit st) + 1"
  shows "compile_lines P f ls st =
     (if unat (kAcceptableErrors st) + length ls \<le> unat (kErrorLimit st) + 1
      then Inr (st\<lparr>diagnostics := diagnostics st
                       @ map (\<lambda>l. (f, erase_newline (fst (CheckLine P l)))) ls,
                    kAcceptableErrors := kAcceptableErrors st + of_nat (length ls)\<rparr>)
      else Inl (Exited 3))"
  using assms
proof (induction ls arbitrary: st)
  case Nil
  then show ?case by simp
next
  case (Cons l ls)
  have inv: "fst (CheckLine P l) \<noteq> []"
    and rest: "list_all (\<lambda>l. fst (CheckLine P l) \<noteq> []) ls"
    using Cons.prems(1) by simp_all
  show ?case
  proof (cases "kAcceptableErrors st > kErrorLimit st")
    case True
    then have "unat (kAcceptableErrors st) > unat (kErrorLimit st)"
      by (simp add: word_less_nat_alt)
    with True inv show ?thesis
      by (simp add: compile_line_invalid print_error_def)
  next
    case False
    then have le: "unat (kAcceptableErrors st) \<le> unat (kErrorLimit st)"
      by (simp add: word_less_nat_alt)
    let ?st1 = "st\<lparr>diagnostics := diagnostics st @ [(f, erase_newline (fst (CheckLine P l)))],
                   kAcceptableErrors := kAcceptableErrors st + 1\<rparr>"
    have step: "compile_line P f l st = Inr ?st1"
      using False inv by (simp add: compile_line_invalid print_error_def)
    have u: "unat (kAcceptableErrors st + 1) = unat (kAcceptableErrors st) + 1"
      using le Cons.prems(2) by (simp add: unat_word_ariths)
    have "compile_lines P f ls ?st1 =
       (if unat (kAcceptableErrors ?st1) + length ls \<le> unat (kErrorLimit ?st1) + 1
        then Inr (?st1\<lparr>diagnostics := diagnostics ?st1
                       @ map (\<lambda>l. (f, erase_newline (fst (CheckLine P l)))) ls,
                    kAcceptableErrors := kAcceptableErrors ?st1 + of_nat (length ls)\<rparr>)
        else Inl (Exited 3))"
      using rest Cons.prems(2) le u by (intro Cons.IH) simp_all
    then show ?thesis
      using step u by (simp add: add.assoc)
  qed
qed

lemma CheckLine_dollar: "fst (CheckLine example_platform ''$'') \<noteq> []"
  by (simp add: check_defs char_defs example_platform_def find_word_spec_def)

lemma example_export_text_foo:
  "\<not> kOutputAsBinary st \<Longrightarrow>
     compile_line example_platform f ''export .text foo'' st =
       Inr (st\<lparr>kOriginLabel := kOriginLabel st @ [(''foo'', kOrigin st)],
               kOrigin := kOrigin st + 1,
               kCurrentRecord := (kCurrentRecord st)\<lparr>fKind := 12, fName := ''.text$foo''\<rparr>,
               kCounter := Suc (kCounter st),
               kRecords := set_last_size (length (kBytes st)) (kRecords st)
                 @ [(kCurrentRecord st)\<lparr>fKind := 12, fName := ''.text$foo''\<rparr>]\<rparr>)"
  by (simp add: compile_line_def check_defs directive_defs char_defs example_platform_def
      find_word_spec_def WriteLine_def Let_def)

subsection \<open>What encoding a line changes: the proofs\<close>

lemma emitsI:
  "st' = st\<lparr>kBytes := kBytes st @ bs, errno_set := e\<rparr> \<Longrightarrow> (errno_set st \<Longrightarrow> e) \<Longrightarrow> emits st st'"
  unfolding emits_def by blast

lemma emits_refl [simp]: "emits st st"
  by (rule emitsI [where bs = "[]" and e = "errno_set st"]) simp_all

lemma emits_trans: "emits st st1 \<Longrightarrow> emits st1 st2 \<Longrightarrow> emits st st2"
  unfolding emits_def
proof (elim exE conjE)
  fix bs e bs' e'
  assume a: "st1 = st\<lparr>kBytes := kBytes st @ bs, errno_set := e\<rparr>"
    and b: "st2 = st1\<lparr>kBytes := kBytes st1 @ bs', errno_set := e'\<rparr>"
    and c: "errno_set st \<longrightarrow> e" "errno_set st1 \<longrightarrow> e'"
  have "st2 = st\<lparr>kBytes := kBytes st @ (bs @ bs'), errno_set := e'\<rparr>"
    using a b by simp
  moreover have "errno_set st \<longrightarrow> e'"
    using a c by simp
  ultimately show "\<exists>bs e. (errno_set st \<longrightarrow> e) \<and> st2 = st\<lparr>kBytes := kBytes st @ bs, errno_set := e\<rparr>"
    by blast
qed

lemma emits_bytes [simp]: "emits st (st\<lparr>kBytes := kBytes st @ bs\<rparr>)"
  by (rule emitsI [where bs = bs and e = "errno_set st"]) simp_all

lemma emits_errno_bytes [simp]:
  "emits st (st\<lparr>errno_set := e, kBytes := kBytes st @ bs\<rparr>) = (errno_set st \<longrightarrow> e)"
proof
  assume "emits st (st\<lparr>errno_set := e, kBytes := kBytes st @ bs\<rparr>)"
  then obtain bs' e' where "errno_set st \<longrightarrow> e'"
    and "st\<lparr>errno_set := e, kBytes := kBytes st @ bs\<rparr>
           = st\<lparr>kBytes := kBytes st @ bs', errno_set := e'\<rparr>"
    unfolding emits_def by blast
  then have "errno_set st \<longrightarrow> e'"
    and "errno_set (st\<lparr>errno_set := e, kBytes := kBytes st @ bs\<rparr>)
           = errno_set (st\<lparr>kBytes := kBytes st @ bs', errno_set := e'\<rparr>)"
    by simp_all
  then show "errno_set st \<longrightarrow> e" by simp
next
  assume "errno_set st \<longrightarrow> e"
  then show "emits st (st\<lparr>errno_set := e, kBytes := kBytes st @ bs\<rparr>)"
    by (intro emitsI [where bs = bs and e = e]) simp_all
qed

lemma emits_errno [simp]: "emits st (st\<lparr>errno_set := e\<rparr>) = (errno_set st \<longrightarrow> e)"
  using emits_errno_bytes [where st = st and e = e and bs = "[]"] by simp

lemma emits_fields:
  assumes "emits st st'"
  shows "kRecords st' = kRecords st" "kOrigin st' = kOrigin st"
    "kOriginLabel st' = kOriginLabel st" "kUndefinedSymbols st' = kUndefinedSymbols st"
    "kOutputAsBinary st' = kOutputAsBinary st" "kCurrentRecord st' = kCurrentRecord st"
    "kErrorLimit st' = kErrorLimit st" "kAcceptableErrors st' = kAcceptableErrors st"
    "diagnostics st' = diagnostics st" "kCounter st' = kCounter st"
    "errno_set st \<Longrightarrow> errno_set st'" "prefix (kBytes st) (kBytes st')"
  using assms unfolding emits_def by auto

lemma fatal_not_Inr [simp]: "fatal reason f what st \<noteq> Inr x"
  by (simp add: fatal_def split: sum.splits)

lemma write_based_emits:
  "write_based P jl ds b msg what st = Inr (ok, st') \<Longrightarrow> emits st st' \<and> ok"
  by (auto simp add: write_based_def Let_def split: prod.splits if_splits)

lemma WriteNumber_emits:
  "WriteNumber P pos jl st = Inr (ok, st') \<Longrightarrow> emits st st'"
  by (auto simp add: WriteNumber_def Let_def dest: write_based_emits split: prod.splits if_splits)

lemma WriteNumber_False_errno:
  "WriteNumber P pos jl st = Inr (False, st') \<Longrightarrow> isdigit (str_at jl pos) \<Longrightarrow> errno_set st'"
  by (auto simp add: WriteNumber_def Let_def dest: write_based_emits split: prod.splits if_splits)

lemma scan_registers_emits:
  "scan_registers P f l st n = Inr (st', m) \<Longrightarrow> emits st st'"
proof (induction l arbitrary: st n)
  case Nil
  then show ?case by simp
next
  case (Cons c rest)
  show ?case
  proof (cases "c = CHR ''r'' \<and> isdigit (str_at rest 0)")
    case False
    with Cons show ?thesis by auto
  next
    case True
    with Cons.prems obtain b where
      "scan_registers P f rest (st\<lparr>kBytes := kBytes st @ [b]\<rparr>) (n + 1) = Inr (st', m)"
      by (auto simp add: Let_def split: if_splits)
    from Cons.IH [OF this] show ?thesis
      using emits_trans emits_bytes by blast
  qed
qed

lemma check_registers_same: "check_registers P op line f n st = Inr st' \<Longrightarrow> st' = st"
  by (auto simp add: check_registers_def Let_def split: if_splits)

lemma write_registers_emits: "write_registers P op line f st = Inr st' \<Longrightarrow> emits st st'"
  by (auto simp add: write_registers_def split: if_splits sum.splits
      dest: scan_registers_emits check_registers_same)

lemma encodes_tick: "emits st st1 \<Longrightarrow> encodes st (asm_end_label_cpy st1)"
  unfolding encodes_def by blast

lemma write_reloc_encodes: "write_reloc cpy f st = Inr st' \<Longrightarrow> encodes st st'"
  by (auto simp add: write_reloc_def Let_def split: if_splits intro!: encodes_tick)

lemma encodes_stay: "emits st st1 \<Longrightarrow> errno_set st1 \<Longrightarrow> encodes st st1"
  unfolding encodes_def by blast

lemma encodes_after: "emits st st1 \<Longrightarrow> encodes st1 st2 \<Longrightarrow> encodes st st2"
  unfolding encodes_def using emits_trans by blast

lemma write_zero_label_encodes:
  assumes "write_zero_label P cpy f st = Inr st'"
  shows "encodes st st'"
proof -
  let ?first = "if str_at cpy 1 = CHR ''x'' \<or> str_at cpy 1 = CHR ''o'' \<or> str_at cpy 1 = CHR ''b''
                then WriteNumber P 0 cpy st else Inr (False, st)"
  from assms obtain ok st1 where first: "?first = Inr (ok, st1)"
    by (cases ?first) (auto simp add: write_zero_label_def)
  then have e1: "emits st st1"
    by (auto split: if_splits dest: WriteNumber_emits)
  show ?thesis
  proof (cases ok)
    case True
    with assms first have "st' = asm_end_label_cpy st1"
      by (simp add: write_zero_label_def)
    with e1 show ?thesis by (simp add: encodes_tick)
  next
    case False
    show ?thesis
    proof (cases "isdigit (str_at cpy 0)")
      case d: True
      with assms first False obtain ok2 st2 where
        second: "WriteNumber P 0 cpy st1 = Inr (ok2, st2)"
        and res: "st' = (if ok2 then asm_end_label_cpy st2 else st2)"
        by (cases "WriteNumber P 0 cpy st1")
           (auto simp add: write_zero_label_def split: bool.splits)
      have e2: "emits st st2"
        using e1 WriteNumber_emits [OF second] by (rule emits_trans)
      show ?thesis
      proof (cases ok2)
        case True
        with res e2 show ?thesis by (simp add: encodes_tick)
      next
        case False
        with second d have "errno_set st2"
          by (auto dest: WriteNumber_False_errno)
        with res False e2 show ?thesis by (simp add: encodes_stay)
      qed
    next
      case nd: False
      with assms first False have "write_reloc cpy f st1 = Inr st'"
        by (simp add: write_zero_label_def)
      then show ?thesis
        using e1 encodes_after write_reloc_encodes by blast
    qed
  qed
qed

lemma asm_write_label_encodes:
  "asm_write_label P name cpy f st = Inr st' \<Longrightarrow> encodes st st'"
  by (auto simp add: asm_write_label_def Let_def
      split: if_splits option.splits
      intro!: encodes_tick dest: write_zero_label_encodes write_reloc_encodes)

lemma write_operand_encodes:
  assumes "write_operand P name line f st = Inr st'"
  shows "encodes st st'"
proof -
  from assms obtain cpy where "operand_loop f line False st = Inr cpy"
    by (cases "operand_loop f line False st") (auto simp add: write_operand_def)
  let ?jl = "if str_at cpy 0 = CHR '' '' then strip_loop cpy else cpy"
  from assms \<open>operand_loop f line False st = Inr cpy\<close> obtain ok st1 where
    wn: "WriteNumber P 0 ?jl st = Inr (ok, st1)"
    and awl: "asm_write_label P name cpy f st1 = Inr st'"
    by (cases "WriteNumber P 0 ?jl st")
       (auto simp add: write_operand_def Let_def split: bool.splits if_splits)
  from WriteNumber_emits [OF wn] asm_write_label_encodes [OF awl] show ?thesis
    by (rule encodes_after)
qed

lemma WriteLine_opcode_encodes:
  assumes "WriteLine_opcode P op line f st = Inr st'"
  shows "encodes st st'"
proof -
  let ?st0 = "st\<lparr>kBytes := kBytes st @ [fOpcode op, fFunct3 op, fFunct7 op]\<rparr>"
  from assms obtain st1 where wr: "write_registers P op line f ?st0 = Inr st1"
    by (cases "write_registers P op line f ?st0") (auto simp add: WriteLine_opcode_def)
  have e: "emits st st1"
    using emits_bytes write_registers_emits [OF wr] by (rule emits_trans)
  from assms wr have
    "(write_operand P (opName op) line f st1 = Inr st') \<or> st' = asm_end_label_cpy st1"
    by (auto simp add: WriteLine_opcode_def split: if_splits)
  then show ?thesis
    using e encodes_after write_operand_encodes encodes_tick by blast
qed

lemma WriteLine_result:
  "WriteLine P line f st = Inr st' \<Longrightarrow>
     (if find_word P line ''export '' \<or> match_opcode P line = None then st' = st
      else encodes st st')"
  by (auto simp add: WriteLine_def split: if_splits option.splits dest: WriteLine_opcode_encodes)

lemma print_error_result:
  "print_error reason f st = Inr st' \<Longrightarrow>
     st' = st\<lparr>diagnostics := diagnostics st @ [(f, erase_newline reason)],
              kAcceptableErrors := kAcceptableErrors st + 1\<rparr>"
  by (auto simp add: print_error_def Let_def split: if_splits)

lemma push_record_result:
  "push_record name kind st = Inr st' \<Longrightarrow>
     st' = st\<lparr>kCurrentRecord := (kCurrentRecord st)\<lparr>fKind := kind, fName := name\<rparr>,
              kCounter := kCounter st + 1,
              kRecords := set_last_size (length (kBytes st)) (kRecords st)
                @ [(kCurrentRecord st)\<lparr>fKind := kind, fName := name\<rparr>]\<rparr>"
  by (auto simp add: push_record_def Let_def split: if_splits)

lemma read_import_result:
  assumes "read_import P line st = Inr st'"
  shows "\<exists>name. substr_after ''import '' line = Inr name \<and> \<not> kOutputAsBinary st \<and>
           st' = st\<lparr>kCurrentRecord := (kCurrentRecord st)
                      \<lparr>fKind := section_kind P (mangle_import name) (fKind (kCurrentRecord st)),
                       fName := to_string (length name) @ '':ld:'' @ mangle_import name\<rparr>,
                    kCounter := kCounter st + 1,
                    kRecords := set_last_size (length (kBytes st)) (kRecords st)
                      @ [(kCurrentRecord st)
                      \<lparr>fKind := section_kind P (mangle_import name) (fKind (kCurrentRecord st)),
                       fName := to_string (length name) @ '':ld:'' @ mangle_import name\<rparr>]\<rparr>"
  using assms
  by (auto simp add: read_import_def Let_def split: if_splits sum.splits
      dest!: push_record_result)

lemma read_export_result:
  assumes "read_export P line st = Inr st'"
  shows "\<exists>name name_copy. substr_after ''export '' line = Inr name \<and> \<not> kOutputAsBinary st \<and>
           strip_section (mangle_export name) name = Inr name_copy \<and>
           st' = st\<lparr>kOriginLabel := kOriginLabel st @ [(erase_spaces name_copy, kOrigin st)],
                    kOrigin := kOrigin st + 1,
                    kCurrentRecord := (kCurrentRecord st)
                      \<lparr>fKind := section_kind P (mangle_export name) (fKind (kCurrentRecord st)),
                       fName := mangle_export name\<rparr>,
                    kCounter := kCounter st + 1,
                    kRecords := set_last_size (length (kBytes st)) (kRecords st)
                      @ [(kCurrentRecord st)
                      \<lparr>fKind := section_kind P (mangle_export name) (fKind (kCurrentRecord st)),
                       fName := mangle_export name\<rparr>]\<rparr>"
  using assms
  by (auto simp add: read_export_def Let_def split: if_splits sum.splits
      dest!: push_record_result)

lemma compile_line_valid:
  "fst (CheckLine P l) = [] \<Longrightarrow>
     compile_line P f l st =
       (case asm_read_attributes P (snd (CheckLine P l)) st of
          Inl e \<Rightarrow> Inl e
        | Inr st1 \<Rightarrow> WriteLine P (snd (CheckLine P l)) f st1)"
  by (cases "CheckLine P l") (auto simp add: compile_line_def split: sum.splits)

text \<open>What one line does to the origin counter, the label table and the records.\<close>

lemma compile_line_cases:
  assumes "compile_line P f l st = Inr st'"
  obtains
    (invalid) "fst (CheckLine P l) \<noteq> []"
      "st' = st\<lparr>diagnostics := diagnostics st @ [(f, erase_newline (fst (CheckLine P l)))],
               kAcceptableErrors := kAcceptableErrors st + 1\<rparr>"
  | (import) st1 where "fst (CheckLine P l) = []" "find_word P (snd (CheckLine P l)) ''import ''"
      "read_import P (snd (CheckLine P l)) st = Inr st1"
      "WriteLine P (snd (CheckLine P l)) f st1 = Inr st'"
  | (export) "fst (CheckLine P l) = []" "\<not> find_word P (snd (CheckLine P l)) ''import ''"
      "find_word P (snd (CheckLine P l)) ''export ''"
      "read_export P (snd (CheckLine P l)) st = Inr st'"
  | (other) "fst (CheckLine P l) = []" "\<not> find_word P (snd (CheckLine P l)) ''import ''"
      "\<not> find_word P (snd (CheckLine P l)) ''export ''"
      "WriteLine P (snd (CheckLine P l)) f st = Inr st'"
proof (cases "fst (CheckLine P l) = []")
  case False
  with assms have "print_error (fst (CheckLine P l)) f st = Inr st'"
    by (simp add: compile_line_invalid)
  from False print_error_result [OF this] show ?thesis by (rule invalid)
next
  case True
  let ?line = "snd (CheckLine P l)"
  from assms True obtain st1 where
    ra: "asm_read_attributes P ?line st = Inr st1" and wl: "WriteLine P ?line f st1 = Inr st'"
    by (cases "asm_read_attributes P ?line st") (auto simp add: compile_line_valid)
  show ?thesis
  proof (cases "find_word P ?line ''import ''")
    case i: True
    with ra have "read_import P ?line st = Inr st1" by (simp add: asm_read_attributes_def)
    with True i wl show ?thesis by (auto intro: import)
  next
    case ni: False
    show ?thesis
    proof (cases "find_word P ?line ''export ''")
      case e: True
      with ra ni have "read_export P ?line st = Inr st1" by (simp add: asm_read_attributes_def)
      moreover from wl e have "st' = st1" by (simp add: WriteLine_def)
      ultimately show ?thesis using True ni e by (auto intro: export)
    next
      case ne: False
      with ra ni have "st1 = st" by (simp add: asm_read_attributes_def)
      with wl True ni ne show ?thesis by (auto intro: other)
    qed
  qed
qed


lemma encodes_fields:
  assumes "encodes st st'"
  shows "kRecords st' = kRecords st" "kOriginLabel st' = kOriginLabel st"
    "kUndefinedSymbols st' = kUndefinedSymbols st" "kOutputAsBinary st' = kOutputAsBinary st"
    "errno_set st \<Longrightarrow> errno_set st'" "prefix (kBytes st) (kBytes st')"
    "\<not> errno_set st' \<Longrightarrow> kOrigin st' = kOrigin st + 1"
  using assms unfolding encodes_def asm_end_label_cpy_def
  by (auto dest: emits_fields)

lemma compile_line_errno:
  assumes "compile_line P f l st = Inr st'" and "errno_set st"
  shows "errno_set st'"
  using assms(1)
proof (cases rule: compile_line_cases)
  case invalid
  with assms(2) show ?thesis by simp
next
  case (import st1)
  from read_import_result [OF import(3)] assms(2) have "errno_set st1" by auto
  with WriteLine_result [OF import(4)] show ?thesis
    by (auto split: if_splits dest: encodes_fields)
next
  case export
  from read_export_result [OF export(4)] assms(2) show ?thesis by auto
next
  case other
  with WriteLine_result [OF other(4)] assms(2) show ?thesis
    by (auto split: if_splits dest: encodes_fields)
qed

lemma compile_line_origin:
  assumes "compile_line P f l st = Inr st'" and "\<not> errno_set st'"
  shows "kOrigin st' = kOrigin st + of_nat (origin_ticks P [l])
    \<and> map snd (kOriginLabel st') =
        map snd (kOriginLabel st) @ (if is_export_line P l then [kOrigin st] else [])"
  using assms(1)
proof (cases rule: compile_line_cases)
  case invalid
  then show ?thesis
    by (simp add: origin_ticks_def is_export_line_def is_encoded_line_def)
next
  case (import st1)
  from read_import_result [OF import(3)]
  have "kOrigin st1 = kOrigin st" "kOriginLabel st1 = kOriginLabel st" by auto
  with WriteLine_result [OF import(4)] import(1,2) assms(2) show ?thesis
    by (auto simp add: origin_ticks_def is_export_line_def is_encoded_line_def
        split: if_splits dest: encodes_fields)
next
  case export
  from read_export_result [OF export(4)] export(1,2,3) show ?thesis
    by (auto simp add: origin_ticks_def is_export_line_def is_encoded_line_def)
next
  case other
  with WriteLine_result [OF other(4)] assms(2) show ?thesis
    by (auto simp add: origin_ticks_def is_export_line_def is_encoded_line_def
        split: if_splits dest: encodes_fields)
qed

lemma compile_lines_errno:
  "compile_lines P f ls st = Inr st' \<Longrightarrow> errno_set st \<Longrightarrow> errno_set st'"
  by (induction ls arbitrary: st) (auto split: sum.splits dest: compile_line_errno)

lemma origin_ticks_Cons: "origin_ticks P (l # ls) = origin_ticks P [l] + origin_ticks P ls"
  by (simp add: origin_ticks_def)

subsection \<open>The error counter across the lines of a run\<close>

lemma encodes_counters:
  assumes "encodes st st'"
  shows "kErrorLimit st' = kErrorLimit st" "kAcceptableErrors st' = kAcceptableErrors st"
    "diagnostics st' = diagnostics st"
  using assms unfolding encodes_def asm_end_label_cpy_def
  by (auto dest: emits_fields)

lemma compile_line_counters:
  assumes "compile_line P f l st = Inr st'"
  shows "kErrorLimit st' = kErrorLimit st
    \<and> kAcceptableErrors st' = kAcceptableErrors st + of_nat (length (failing_lines P [l]))
    \<and> diagnostics st' = diagnostics st
        @ map (\<lambda>l. (f, erase_newline (fst (CheckLine P l)))) (failing_lines P [l])"
  using assms
proof (cases rule: compile_line_cases)
  case invalid
  then show ?thesis by (simp add: failing_lines_def)
next
  case (import st1)
  from read_import_result [OF import(3)]
  have "kErrorLimit st1 = kErrorLimit st" "kAcceptableErrors st1 = kAcceptableErrors st"
    "diagnostics st1 = diagnostics st" by auto
  with WriteLine_result [OF import(4)] import(1) show ?thesis
    by (auto simp add: failing_lines_def split: if_splits dest: encodes_counters)
next
  case export
  from read_export_result [OF export(4)] export(1) show ?thesis
    by (auto simp add: failing_lines_def)
next
  case other
  with WriteLine_result [OF other(4)] show ?thesis
    by (auto simp add: failing_lines_def split: if_splits dest: encodes_counters)
qed

lemma failing_lines_Cons: "failing_lines P (l # ls) = failing_lines P [l] @ failing_lines P ls"
  by (simp add: failing_lines_def)

lemma compile_lines_counters:
  "compile_lines P f ls st = Inr st' \<Longrightarrow>
     kErrorLimit st' = kErrorLimit st
     \<and> kAcceptableErrors st' = kAcceptableErrors st + of_nat (length (failing_lines P ls))
     \<and> diagnostics st' = diagnostics st
         @ map (\<lambda>l. (f, erase_newline (fst (CheckLine P l)))) (failing_lines P ls)"
proof (induction ls arbitrary: st)
  case Nil
  then show ?case by (simp add: failing_lines_def)
next
  case (Cons l ls)
  from Cons.prems obtain st1 where
    one: "compile_line P f l st = Inr st1" and more: "compile_lines P f ls st1 = Inr st'"
    by (auto split: sum.splits)
  from compile_line_counters [OF one] Cons.IH [OF more] show ?case
    by (simp add: failing_lines_Cons [of P l ls] add.assoc)
qed

text \<open>
  From a counter of at most one above the limit, the failures of a run that returns
  are at most as many as bring the counter to one above the limit.
\<close>

lemma compile_lines_counter_bound:
  assumes "compile_lines P f ls st = Inr st'"
    and "unat (kErrorLimit st) + 1 < 2 ^ 32"
    and "unat (kAcceptableErrors st) \<le> unat (kErrorLimit st) + 1"
  shows "unat (kAcceptableErrors st') = unat (kAcceptableErrors st) + length (failing_lines P ls)
    \<and> unat (kAcceptableErrors st') \<le> unat (kErrorLimit st) + 1"
  using assms
proof (induction ls arbitrary: st)
  case Nil
  then show ?case by (simp add: failing_lines_def)
next
  case (Cons l ls)
  from Cons.prems(1) obtain st1 where
    one: "compile_line P f l st = Inr st1" and more: "compile_lines P f ls st1 = Inr st'"
    by (auto split: sum.splits)
  note c = compile_line_counters [OF one]
  have step: "unat (kAcceptableErrors st1) = unat (kAcceptableErrors st) + length (failing_lines P [l])
    \<and> unat (kAcceptableErrors st1) \<le> unat (kErrorLimit st) + 1"
  proof (cases "fst (CheckLine P l) = []")
    case True
    with c Cons.prems(3) show ?thesis by (simp add: failing_lines_def)
  next
    case False
    with one have "print_error (fst (CheckLine P l)) f st = Inr st1"
      by (simp add: compile_line_invalid)
    then have "\<not> kAcceptableErrors st > kErrorLimit st"
      by (auto simp add: print_error_def Let_def split: if_splits)
    then have le: "unat (kAcceptableErrors st) \<le> unat (kErrorLimit st)"
      by (simp add: word_less_nat_alt)
    then have "unat (kAcceptableErrors st + 1) = unat (kAcceptableErrors st) + 1"
      using Cons.prems(2) by (simp add: unat_word_ariths)
    with c False le show ?thesis by (simp add: failing_lines_def)
  qed
  from c have lim: "kErrorLimit st1 = kErrorLimit st" by simp
  from Cons.IH [OF more] Cons.prems(2) step lim
  have "unat (kAcceptableErrors st') = unat (kAcceptableErrors st1) + length (failing_lines P ls)
    \<and> unat (kAcceptableErrors st') \<le> unat (kErrorLimit st1) + 1"
    by simp
  with step lim show ?case
    by (simp add: failing_lines_Cons [of P l ls])
qed

text \<open>
  Claim C5, as the code has it. In any run, a line that fails validation is logged and
  counted and is not fatal by itself: the lines after it are compiled. The counter runs
  across the lines that pass, which leave it as it is, so that after any lines that were
  compiled it is its first value plus the number of failures among them. The test of the
  counter against the limit \<open>L\<close> comes before the count of the failure at hand: the
  process exits with status 3 at a failure exactly where the counter of the failures
  before it is above \<open>L\<close>, which from a counter of 0 is at failure number \<open>L + 2\<close>, the
  counter having reached \<open>L + 1\<close> while the run went on.
\<close>

theorem validator_failure_counted_across_lines:
  assumes "compile_lines P f pre st = Inr st1" and "fst (CheckLine P l) \<noteq> []"
  shows "kErrorLimit st1 = kErrorLimit st
    \<and> kAcceptableErrors st1 = kAcceptableErrors st + of_nat (length (failing_lines P pre))
    \<and> diagnostics st1 = diagnostics st
        @ map (\<lambda>l. (f, erase_newline (fst (CheckLine P l)))) (failing_lines P pre)
    \<and> compile_lines P f (pre @ l # post) st =
        (if kAcceptableErrors st1 > kErrorLimit st1 then Inl (Exited 3)
         else compile_lines P f post
                (st1\<lparr>diagnostics := diagnostics st1 @ [(f, erase_newline (fst (CheckLine P l)))],
                     kAcceptableErrors := kAcceptableErrors st1 + 1\<rparr>))
    \<and> (kAcceptableErrors st = 0 \<and> unat (kErrorLimit st) + 1 < 2 ^ 32 \<longrightarrow>
         length (failing_lines P pre) \<le> unat (kErrorLimit st) + 1
         \<and> (kAcceptableErrors st1 > kErrorLimit st1)
             = (length (failing_lines P pre) = unat (kErrorLimit st) + 1))"
proof (intro conjI impI)
  note c = compile_lines_counters [OF assms(1)]
  from c show "kErrorLimit st1 = kErrorLimit st" by simp
  from c show "kAcceptableErrors st1
      = kAcceptableErrors st + of_nat (length (failing_lines P pre))" by simp
  from c show "diagnostics st1 = diagnostics st
        @ map (\<lambda>l. (f, erase_newline (fst (CheckLine P l)))) (failing_lines P pre)" by simp
  show "compile_lines P f (pre @ l # post) st =
        (if kAcceptableErrors st1 > kErrorLimit st1 then Inl (Exited 3)
         else compile_lines P f post
                (st1\<lparr>diagnostics := diagnostics st1 @ [(f, erase_newline (fst (CheckLine P l)))],
                     kAcceptableErrors := kAcceptableErrors st1 + 1\<rparr>))"
    using assms by (simp add: compile_lines_append compile_line_invalid print_error_def)
next
  assume a: "kAcceptableErrors st = 0 \<and> unat (kErrorLimit st) + 1 < 2 ^ 32"
  from compile_lines_counter_bound [OF assms(1)] a
  have b: "unat (kAcceptableErrors st1) = length (failing_lines P pre)"
    "unat (kAcceptableErrors st1) \<le> unat (kErrorLimit st) + 1"
    by simp_all
  then show "length (failing_lines P pre) \<le> unat (kErrorLimit st) + 1" by simp
  have "kErrorLimit st1 = kErrorLimit st"
    using compile_lines_counters [OF assms(1)] by simp
  with b show "(kAcceptableErrors st1 > kErrorLimit st1)
             = (length (failing_lines P pre) = unat (kErrorLimit st) + 1)"
    by (auto simp add: word_less_nat_alt)
qed

theorem validator_failure_counted_across_lines_witness:
  "compile_lines example_platform ''a.s''
     ((replicate 11 ''$'' @ [''export .text foo'']) @ ''$'' # [''nop''])
     (initial_state example_platform False) = Inl (Exited 3)
   \<and> map_sum id kAcceptableErrors
       (compile_lines example_platform ''a.s''
          ((replicate 10 ''$'' @ [''export .text foo'']) @ ''$'' # [''nop''])
          (initial_state example_platform False)) = Inr 11"
proof -
  let ?st0 = "initial_state example_platform False"
  have fails: "list_all (\<lambda>l. fst (CheckLine example_platform l) \<noteq> []) (replicate n ''$'')" for n
    using CheckLine_dollar by (simp add: list_all_length)
  have run: "n \<le> 11 \<Longrightarrow> compile_lines example_platform ''a.s'' (replicate n ''$'') ?st0 =
      Inr (?st0\<lparr>diagnostics := diagnostics ?st0
              @ map (\<lambda>l. (''a.s'', erase_newline (fst (CheckLine example_platform l))))
                  (replicate n ''$''),
            kAcceptableErrors := of_nat n\<rparr>)" for n
    using compile_lines_failures [OF fails [of n], where st = ?st0 and f = "''a.s''"]
    by (simp add: initial_state_def)
  have r11: "\<exists>st1. compile_lines example_platform ''a.s'' (replicate 11 ''$'' @ [''export .text foo'']) ?st0 = Inr st1
     \<and> kAcceptableErrors st1 = 11 \<and> kErrorLimit st1 = 10"
    using run [of 11] by (simp add: compile_lines_append example_export_text_foo initial_state_def)
  have r10: "\<exists>st1. compile_lines example_platform ''a.s'' (replicate 10 ''$'' @ [''export .text foo'']) ?st0 = Inr st1
     \<and> kAcceptableErrors st1 = 10 \<and> kErrorLimit st1 = 10 \<and> \<not> kOutputAsBinary st1"
    using run [of 10] by (simp add: compile_lines_append example_export_text_foo initial_state_def)
  from r11 obtain st11 where a: "compile_lines example_platform ''a.s'' (replicate 11 ''$'' @ [''export .text foo'']) ?st0 = Inr st11"
     "kAcceptableErrors st11 = 11" "kErrorLimit st11 = 10" by blast
  from r10 obtain st10 where b: "compile_lines example_platform ''a.s'' (replicate 10 ''$'' @ [''export .text foo'']) ?st0 = Inr st10"
     "kAcceptableErrors st10 = 10" "kErrorLimit st10 = 10" by blast
  have nop: "compile_line example_platform ''a.s'' ''nop'' st = Inr (st\<lparr>kBytes := kBytes st @ [CHR 0x00, CHR 0x00, CHR 0x00], kOrigin := kOrigin st + 1\<rparr>)" for st
    by (simp add: run_defs)
  from validator_failure_counted_across_lines [OF a(1) CheckLine_dollar, of "[''nop'']"]
       validator_failure_counted_across_lines [OF b(1) CheckLine_dollar, of "[''nop'']"]
       a b
  show ?thesis
    by (simp add: nop)
qed

text \<open>
  Claim C5 as stated fails: with the limit 10, eleven failures leave the counter at 11,
  above the limit, and the process has not terminated; the file is compiled to its end
  and the module returns 0.
\<close>

theorem counter_exceeds_limit_counterexample:
  "map_sum id kAcceptableErrors
     (compile_lines example_platform ''a.s'' (replicate 11 ''$'')
        (initial_state example_platform False)) = Inr 11
   \<and> kErrorLimit (initial_state example_platform False) = 10
   \<and> status (MPUXAssembler64000 example_platform [''64asm'', ''a.s'']
        [''a.s'' \<mapsto> replicate 11 ''$'' @ [''export .text foo'']] False) = Inr 0"
proof -
  let ?st0 = "initial_state example_platform False"
  have fails: "list_all (\<lambda>l. fst (CheckLine example_platform l) \<noteq> []) (replicate 11 ''$'')"
    using CheckLine_dollar by (simp add: list_all_length)
  have run: "compile_lines example_platform ''a.s'' (replicate 11 ''$'') ?st0 =
      Inr (?st0\<lparr>diagnostics := diagnostics ?st0
              @ map (\<lambda>l. (''a.s'', erase_newline (fst (CheckLine example_platform l))))
                  (replicate 11 ''$''),
            kAcceptableErrors := 11\<rparr>)"
    using compile_lines_failures [OF fails, of ?st0 "''a.s''"]
    by (simp add: initial_state_def)
  show ?thesis
    using run
    by (simp add: compile_lines_append example_export_text_foo output_defs str_at_def Let_def)
qed

subsection \<open>The origin counter\<close>

lemma compile_lines_origin:
  assumes "compile_lines P f ls st = Inr st'" and "\<not> errno_set st'"
  shows "kOrigin st' = kOrigin st + of_nat (origin_ticks P ls)
    \<and> map snd (kOriginLabel st') = map snd (kOriginLabel st) @ export_ordinals P (kOrigin st) ls"
  using assms
proof (induction ls arbitrary: st)
  case Nil
  then show ?case by (simp add: origin_ticks_def)
next
  case (Cons l ls)
  from Cons.prems(1) obtain st1 where
    one: "compile_line P f l st = Inr st1" and more: "compile_lines P f ls st1 = Inr st'"
    by (auto split: sum.splits)
  have "\<not> errno_set st1"
    using compile_lines_errno [OF more] Cons.prems(2) by blast
  from compile_line_origin [OF one this] Cons.IH [OF more Cons.prems(2)]
  show ?case
    by (simp add: origin_ticks_Cons [of P l ls] add.assoc)
qed

text \<open>
  Claim C6, as the code has it. The origin counter starts at the base origin. In a
  compilation that returns with \<open>errno\<close> clear, the origin counter has advanced by one for
  every \<open>export\<close> directive and for every encoded line, whatever its mnemonic, and by
  nothing else; the ordinals stored with the labels are the values of the counter at each
  \<open>export\<close>.
\<close>

theorem origin_counter_counts_exports_and_instructions:
  assumes "compile_lines P f ls st = Inr st'" and "\<not> errno_set st'"
  shows "kOrigin st' = kOrigin st + of_nat (origin_ticks P ls)
    \<and> map snd (kOriginLabel st') = map snd (kOriginLabel st) @ export_ordinals P (kOrigin st) ls
    \<and> kOrigin (initial_state P e) = kPefBaseOrigin P"
  using compile_lines_origin [OF assms] by (simp add: initial_state_def)

theorem origin_counter_counts_exports_and_instructions_witness:
  "\<exists>st'. compile_lines example_platform ''a.s''
           [''export .text foo'', ''export .data bar'', ''add r1, r2'', ''export .text baz'']
           (initial_state example_platform False) = Inr st'
         \<and> kOrigin st' = 0x1000004
         \<and> map snd (kOriginLabel st') = [0x1000000, 0x1000001, 0x1000003]"
proof -
  let ?ls = "[''export .text foo'', ''export .data bar'', ''add r1, r2'', ''export .text baz'']"
  let ?st = "initial_state example_platform False"
  have "\<exists>st'. compile_lines example_platform ''a.s'' ?ls ?st = Inr st' \<and> \<not> errno_set st'"
    by (simp add: compile_line_def check_defs directive_defs char_defs example_defs encode_defs
        initial_state_def Let_def)
  then obtain st' where run: "compile_lines example_platform ''a.s'' ?ls ?st = Inr st'"
    and clear: "\<not> errno_set st'"
    by blast
  have "origin_ticks example_platform ?ls = 4"
    and "export_ordinals example_platform 0x1000000 ?ls = [0x1000000, 0x1000001, 0x1000003]"
    by (simp_all add: origin_ticks_def is_export_line_def is_encoded_line_def match_opcode_def
        check_defs char_defs example_defs)
  with origin_counter_counts_exports_and_instructions [OF run clear] run show ?thesis
    by (simp add: initial_state_def example_platform_def)
qed

text \<open>
  Claim C6 as stated fails: \<open>add r1, r2\<close> is neither an \<open>export\<close> nor an \<open>lda\<close> or \<open>sta\<close>
  and advances the counter, so that the two exports around it do not receive consecutive
  ordinals.
\<close>

theorem origin_counter_add_counterexample:
  "map_sum id kOrigin
     (compile_line example_platform ''a.s'' ''add r1, r2'' (initial_state example_platform False))
     = Inr 0x1000001
   \<and> map_sum id kOriginLabel
     (compile_lines example_platform ''a.s''
        [''export .text foo'', ''add r1, r2'', ''export .data bar'']
        (initial_state example_platform False))
     = Inr [(''foo'', 0x1000000), (''bar'', 0x1000002)]"
  by (simp add: compile_line_def check_defs directive_defs char_defs example_defs encode_defs
      initial_state_def Let_def)

text \<open>
  Where \<open>errno\<close> is set, an encoded line can leave the counter as it is: after a literal
  out of the range of \<open>strtoq\<close>, the line \<open>lda r1, 0\<close> leaves the loop over the opcode table
  by the \<open>break\<close> that follows the second failed \<open>WriteNumber\<close>, before \<open>++kOrigin\<close>. Of
  the four lines that advance the counter in a run with \<open>errno\<close> clear, three do here.
\<close>

lemma origin_counter_errno_example:
  "map_sum id (\<lambda>st. (kOrigin st, map snd (kOriginLabel st), errno_set st))
     (compile_lines example_platform ''a.s''
        [''export .text foo'', ''lda r1, 99999999999999999999'', ''lda r1, 0'', ''export .data bar'']
        (initial_state example_platform False))
     = Inr (0x1000003, [0x1000000, 0x1000002], True)
   \<and> origin_ticks example_platform
        [''export .text foo'', ''lda r1, 99999999999999999999'', ''lda r1, 0'', ''export .data bar'']
     = 4"
  by (simp add: run_defs operand_loop.simps to_string.simps origin_ticks_def is_export_line_def
      is_encoded_line_def)

subsection \<open>Comments\<close>

lemma str_find_char: "(str_find [c] s = None) = (c \<notin> set s)"
  by (induction s) auto

text \<open>
  Claim C9. Where \<open>find_word\<close> finds \<open>#\<close> or \<open>;\<close> (or \<open>import\<close> or \<open>export\<close>) in a line
  that contains one of the two characters, \<open>CheckLine\<close> returns no error and leaves the
  line cut before the first \<open>#\<close>, or before the first \<open>;\<close> where it has no \<open>#\<close>. Nothing
  else about the line is asked: no check is applied to the text that remains.
\<close>

theorem CheckLine_comment_erased:
  assumes "find_word P line ''import'' \<or> find_word P line ''export''
           \<or> find_word P line ''#'' \<or> find_word P line '';''"
    and "CHR ''#'' \<in> set line \<or> CHR '';'' \<in> set line"
  shows "CheckLine P line =
     ([], takeWhile (\<lambda>c. c \<noteq> (if CHR ''#'' \<in> set line then CHR ''#'' else CHR '';'')) line)"
proof (cases "CHR ''#'' \<in> set line")
  case True
  with assms(1) show ?thesis
    by (simp add: CheckLine_def erase_from_def str_find_char)
next
  case False
  with assms show ?thesis
    by (simp add: CheckLine_def erase_from_def str_find_char)
qed

theorem CheckLine_comment_erased_witness:
  "CheckLine example_platform ''bogus $ r999, # note'' = ([], ''bogus $ r999, '')
   \<and> CheckLine example_platform ''%%% ; note # more'' = ([], ''%%% ; note '')
   \<and> CheckLine example_platform ''%%% ; note'' = ([], ''%%% '')
   \<and> fst (CheckLine example_platform ''bogus $ r999, '') \<noteq> []"
  using CheckLine_comment_erased [of example_platform "''bogus $ r999, # note''"]
    CheckLine_comment_erased [of example_platform "''%%% ; note # more''"]
    CheckLine_comment_erased [of example_platform "''%%% ; note''"]
  by (simp add: example_platform_def find_word_spec_def check_defs char_defs)

subsection \<open>The import directive\<close>

lemma str_find_bound: "str_find needle s = Some i \<Longrightarrow> i + length needle \<le> length s"
proof (induction s arbitrary: i)
  case Nil
  then show ?case by (simp split: if_splits)
next
  case (Cons c cs)
  show ?case
  proof (cases "prefix needle (c # cs)")
    case True
    with Cons.prems show ?thesis by (auto dest: prefix_length_le)
  next
    case False
    with Cons.prems obtain j where "str_find needle cs = Some j" and "i = Suc j"
      by auto
    with Cons.IH show ?thesis by fastforce
  qed
qed

lemma substr_after_found:
  "str_find kw line = Some i \<Longrightarrow> length kw = n \<Longrightarrow>
     substr_after kw line = Inr (drop (i + n) line)"
  using str_find_bound [of kw line i] by (auto simp add: substr_after_def)

lemma length_mangle_import [simp]: "length (mangle_import name) = length name"
  by (simp add: mangle_import_def)

lemma read_import_eq:
  assumes "substr_after ''import '' line = Inr name"
    and "cur = (kCurrentRecord st)
                 \<lparr>fKind := section_kind P (mangle_import name) (fKind (kCurrentRecord st)),
                  fName := to_string (length name) @ '':ld:'' @ mangle_import name\<rparr>"
  shows "read_import P line st =
     (if kOutputAsBinary st then
        (if kAcceptableErrors st > kErrorLimit st then Inl (Exited 3)
         else Inl (Thrown ''invalid_import_bin''))
      else if length (fName cur) > 64 then Inl (Undefined ''memcpy past fName'')
      else Inr (st\<lparr>kCurrentRecord := cur,
                    kCounter := kCounter st + 1,
                    kRecords := set_last_size (length (kBytes st)) (kRecords st) @ [cur]\<rparr>))"
  using assms
  by (simp add: read_import_def fatal_def print_error_def push_record_def kAESymbolLen_def
      Let_def)

text \<open>No line adds to \<open>kUndefinedSymbols\<close>: the list is as empty at the end as at the start.\<close>

lemma compile_line_undefined_symbols:
  assumes "compile_line P f l st = Inr st'"
  shows "kUndefinedSymbols st' = kUndefinedSymbols st"
  using assms
proof (cases rule: compile_line_cases)
  case invalid
  then show ?thesis by simp
next
  case (import st1)
  from read_import_result [OF import(3)]
  have "kUndefinedSymbols st1 = kUndefinedSymbols st" by auto
  with WriteLine_result [OF import(4)] show ?thesis
    by (auto split: if_splits dest: encodes_fields)
next
  case export
  from read_export_result [OF export(4)] show ?thesis by auto
next
  case other
  with WriteLine_result [OF other(4)] show ?thesis
    by (auto split: if_splits dest: encodes_fields)
qed

lemma compile_lines_undefined_symbols:
  "compile_lines P f ls st = Inr st' \<Longrightarrow> kUndefinedSymbols st' = kUndefinedSymbols st"
  by (induction ls arbitrary: st) (auto split: sum.splits dest: compile_line_undefined_symbols)

subsection \<open>The size of a record\<close>


lemma length_set_last_size [simp]: "length (set_last_size n recs) = length recs"
  by (cases recs rule: rev_cases) (auto simp add: set_last_size_def)

lemma compile_line_records:
  assumes "compile_line P f l st = Inr st'"
  shows "if is_directive_line P l
         then \<exists>cur. kRecords st' = set_last_size (length (kBytes st)) (kRecords st) @ [cur]
         else kRecords st' = kRecords st"
  using assms
proof (cases rule: compile_line_cases)
  case invalid
  then show ?thesis by (simp add: is_directive_line_def)
next
  case (import st1)
  from read_import_result [OF import(3)] obtain cur where
    "kRecords st1 = set_last_size (length (kBytes st)) (kRecords st) @ [cur]"
    by auto
  moreover have "kRecords st' = kRecords st1"
    using WriteLine_result [OF import(4)] by (auto split: if_splits dest: encodes_fields)
  ultimately show ?thesis
    using import(1,2) by (simp add: is_directive_line_def)
next
  case export
  from read_export_result [OF export(4)] export(1,3) show ?thesis
    by (auto simp add: is_directive_line_def)
next
  case other
  with WriteLine_result [OF other(4)] show ?thesis
    by (auto simp add: is_directive_line_def split: if_splits dest: encodes_fields)
qed







subsection \<open>The import directive: its record and what is written of it\<close>

lemma str_find_sublist: "(str_find needle s = None) = (\<not> sublist needle s)"
  by (induction s) (auto simp add: sublist_Cons_right)

lemma section_kind_eq:
  "section_kind P name k =
     (if name = ''__start'' \<or> sublist ''.text'' name then kPefCode P
      else if sublist ''.data'' name then kPefData P
      else if sublist ''.page_zero'' name then kPefZero P
      else k)"
  by (simp add: section_kind_def str_find_sublist del: not_None_eq)

lemma set_last_size_names:
  "map fName (set_last_size n recs) = map fName recs"
  "map fKind (set_last_size n recs) = map fKind recs"
  by (cases recs rule: rev_cases; simp add: set_last_size_def)+

lemma write_records_names:
  "map fName (write_records recs k) = map fName recs"
  "map fKind (write_records recs k) = map fKind recs"
  "length (write_records recs k) = length recs"
  by (induction recs arbitrary: k) simp_all

text \<open>The names and the kinds of the records of the table stay as they were pushed.\<close>

lemma compile_line_record_names:
  assumes "compile_line P f l st = Inr st'"
  shows "prefix (map fName (kRecords st)) (map fName (kRecords st'))
    \<and> prefix (map fKind (kRecords st)) (map fKind (kRecords st'))"
proof (cases "is_directive_line P l")
  case True
  with compile_line_records [OF assms] obtain cur where
    "kRecords st' = set_last_size (length (kBytes st)) (kRecords st) @ [cur]"
    by auto
  then show ?thesis by (simp add: set_last_size_names)
next
  case False
  with compile_line_records [OF assms] have "kRecords st' = kRecords st"
    by simp
  then show ?thesis by simp
qed

lemma compile_lines_record_names:
  "compile_lines P f ls st = Inr st' \<Longrightarrow>
     prefix (map fName (kRecords st)) (map fName (kRecords st'))
     \<and> prefix (map fKind (kRecords st)) (map fKind (kRecords st'))"
proof (induction ls arbitrary: st)
  case Nil
  then show ?case by simp
next
  case (Cons l ls)
  from Cons.prems obtain st1 where
    one: "compile_line P f l st = Inr st1" and more: "compile_lines P f ls st1 = Inr st'"
    by (auto split: sum.splits)
  note a = compile_line_record_names [OF one] and b = Cons.IH [OF more]
  from a b have "prefix (map fName (kRecords st)) (map fName (kRecords st'))"
    by (meson prefix_order.trans)
  moreover from a b have "prefix (map fKind (kRecords st)) (map fKind (kRecords st'))"
    by (meson prefix_order.trans)
  ultimately show ?case by simp
qed

lemma prefix_map_nth:
  assumes "prefix (map g xs) (map g ys)" and "k < length xs"
  shows "g (ys ! k) = g (xs ! k) \<and> k < length ys"
proof -
  from assms(1) obtain zs where eq: "map g ys = map g xs @ zs"
    by (auto simp add: prefix_def)
  then have "length (map g ys) = length (map g xs @ zs)" by simp
  then have len: "k < length ys" using assms(2) by simp
  from eq have "map g ys ! k = (map g xs @ zs) ! k" by simp
  with assms(2) len show ?thesis by (simp add: nth_append)
qed

lemma compile_line_binary:
  assumes "compile_line P f l st = Inr st'"
  shows "kOutputAsBinary st' = kOutputAsBinary st"
  using assms
proof (cases rule: compile_line_cases)
  case invalid
  then show ?thesis by simp
next
  case (import st1)
  from read_import_result [OF import(3)]
  have "kOutputAsBinary st1 = kOutputAsBinary st" by auto
  with WriteLine_result [OF import(4)] show ?thesis
    by (auto split: if_splits dest: encodes_fields)
next
  case export
  from read_export_result [OF export(4)] show ?thesis by auto
next
  case other
  with WriteLine_result [OF other(4)] show ?thesis
    by (auto split: if_splits dest: encodes_fields)
qed

lemma compile_lines_binary:
  "compile_lines P f ls st = Inr st' \<Longrightarrow> kOutputAsBinary st' = kOutputAsBinary st"
  by (induction ls arbitrary: st) (auto split: sum.splits dest: compile_line_binary)

text \<open>What is written for a table with no undefined symbol: the records of the table.\<close>

lemma write_output_records:
  assumes "\<not> kOutputAsBinary st" and "kRecords st \<noteq> []" and "kUndefinedSymbols st = []"
  shows "\<exists>hdr written.
           write_output P obj st =
             \<lparr>status = Inr 0,
              outputs = [obj \<mapsto> \<lparr>of_header = Some hdr, of_records = written, of_code = kBytes st\<rparr>]\<rparr>
           \<and> fCount hdr = length (kRecords st)
           \<and> map fName written = map fName (kRecords st)
           \<and> map fKind written = map fKind (kRecords st)"
proof -
  let ?written = "write_records (set_last_size (length (kBytes st)) (kRecords st)) 0"
  let ?hdr = "\<lparr>fMagic = ''AE'', fCount = length (kRecords st),
               fStartCode = sizeof_AEHeader P + length (kRecords st) * sizeof_AERecordHeader P,
               fCodeSize = length (kBytes st)\<rparr>"
  have "write_output P obj st =
          \<lparr>status = Inr 0,
           outputs = [obj \<mapsto> \<lparr>of_header = Some ?hdr, of_records = ?written, of_code = kBytes st\<rparr>]\<rparr>"
    using assms by (simp add: write_output_def write_records_names Let_def)
  moreover have "fCount ?hdr = length (kRecords st)" by simp
  moreover have "map fName ?written = map fName (kRecords st)"
    by (simp add: write_records_names set_last_size_names)
  moreover have "map fKind ?written = map fKind (kRecords st)"
    by (simp add: write_records_names set_last_size_names)
  ultimately show ?thesis by blast
qed

text \<open>
  Claim C1, as the code has it. An \<open>import\<close> directive, the name being the text after
  \<open>import \<close>: in flat-binary mode it is fatal (the exception \<open>invalid_import_bin\<close>, or the
  exit of the process where the error counter is above its limit); in object mode, for an
  entry that fits the 64 bytes of \<open>fName\<close>, the size of the last record of the table
  becomes the length of the buffer and one record is pushed onto the table, named
  \<open><len>:ld:<name>\<close> with the spaces and the commas of the name turned into \<open>$\<close>, of the
  kind of the section that the name holds (of the kind of the directive before, where it
  holds none). Nothing else of the state changes: no undefined symbol is recorded. Where
  the compilation of the directive and of the lines after it returns, from a state with no
  undefined symbol, the records written to the output are those of the table, as many and
  with the same names and kinds, the record of the directive at its place among them.
\<close>

theorem import_directive_pushes_record:
  assumes fw: "find_word P line ''import ''"
    and pos: "str_find ''import '' line = Some i"
    and name: "name = drop (i + 7) line"
    and mangled: "mangled = map (\<lambda>c. if c = CHR '' '' \<or> c = CHR '','' then CHR ''$'' else c) name"
    and kind: "kind = (if mangled = ''__start'' \<or> sublist ''.text'' mangled then kPefCode P
                       else if sublist ''.data'' mangled then kPefData P
                       else if sublist ''.page_zero'' mangled then kPefZero P
                       else fKind (kCurrentRecord st))"
    and cur: "cur = (kCurrentRecord st)
                      \<lparr>fKind := kind, fName := to_string (length name) @ '':ld:'' @ mangled\<rparr>"
    and recs: "recs = (if kRecords st = [] then []
                       else butlast (kRecords st)
                              @ [(last (kRecords st))\<lparr>fSize := length (kBytes st)\<rparr>])"
  shows "asm_read_attributes P line st =
           (if kOutputAsBinary st then
              (if kAcceptableErrors st > kErrorLimit st then Inl (Exited 3)
               else Inl (Thrown ''invalid_import_bin''))
            else if length (fName cur) > 64 then Inl (Undefined ''memcpy past fName'')
            else Inr (st\<lparr>kCurrentRecord := cur,
                         kCounter := kCounter st + 1,
                         kRecords := recs @ [cur]\<rparr>))
    \<and> (\<forall>l post st' obj.
          fst (CheckLine P l) = [] \<and> snd (CheckLine P l) = line \<and> kUndefinedSymbols st = []
          \<and> compile_lines P f (l # post) st = Inr st' \<longrightarrow>
          (\<exists>hdr written.
             write_output P obj st' =
               \<lparr>status = Inr 0,
                outputs = [obj \<mapsto> \<lparr>of_header = Some hdr, of_records = written,
                                     of_code = kBytes st'\<rparr>]\<rparr>
             \<and> fCount hdr = length (kRecords st')
             \<and> map fName written = map fName (kRecords st')
             \<and> map fKind written = map fKind (kRecords st')
             \<and> length (kRecords st) < length written
             \<and> fName (written ! length (kRecords st)) = to_string (length name) @ '':ld:'' @ mangled
             \<and> fKind (written ! length (kRecords st)) = kind))"
proof (intro conjI allI impI)
  have sub: "substr_after ''import '' line = Inr name"
    using substr_after_found [OF pos, of 7] name by simp
  have cur': "cur = (kCurrentRecord st)
                 \<lparr>fKind := section_kind P (mangle_import name) (fKind (kCurrentRecord st)),
                  fName := to_string (length name) @ '':ld:'' @ mangle_import name\<rparr>"
    using cur kind mangled by (simp add: section_kind_eq mangle_import_def)
  have recs': "recs = set_last_size (length (kBytes st)) (kRecords st)"
    using recs by (simp add: set_last_size_def)
  show eq: "asm_read_attributes P line st =
           (if kOutputAsBinary st then
              (if kAcceptableErrors st > kErrorLimit st then Inl (Exited 3)
               else Inl (Thrown ''invalid_import_bin''))
            else if length (fName cur) > 64 then Inl (Undefined ''memcpy past fName'')
            else Inr (st\<lparr>kCurrentRecord := cur,
                         kCounter := kCounter st + 1,
                         kRecords := recs @ [cur]\<rparr>))"
    using read_import_eq [OF sub cur'] fw recs' by (simp add: asm_read_attributes_def)
  fix l post st' obj
  assume a: "fst (CheckLine P l) = [] \<and> snd (CheckLine P l) = line \<and> kUndefinedSymbols st = []
          \<and> compile_lines P f (l # post) st = Inr st'"
  then obtain st2 where
    one: "compile_line P f l st = Inr st2" and more: "compile_lines P f post st2 = Inr st'"
    by (auto split: sum.splits)
  from one a obtain st1 where ra: "asm_read_attributes P line st = Inr st1"
    and wl: "WriteLine P line f st1 = Inr st2"
    by (cases "asm_read_attributes P line st") (auto simp add: compile_line_valid)
  from ra eq have nb: "\<not> kOutputAsBinary st"
    and st1: "st1 = st\<lparr>kCurrentRecord := cur, kCounter := kCounter st + 1,
                       kRecords := recs @ [cur]\<rparr>"
    by (auto split: if_splits)
  have r2: "kRecords st2 = recs @ [cur]"
    using WriteLine_result [OF wl] st1 by (auto split: if_splits dest: encodes_fields)
  have len: "length recs = length (kRecords st)"
    using recs' by simp
  note names = compile_lines_record_names [OF more]
  have k: "length (kRecords st) < length (kRecords st2)"
    using r2 len by simp
  from prefix_map_nth [OF names [THEN conjunct1] k] prefix_map_nth [OF names [THEN conjunct2] k]
  have at: "fName (kRecords st' ! length (kRecords st)) = fName cur"
    "fKind (kRecords st' ! length (kRecords st)) = fKind cur"
    "length (kRecords st) < length (kRecords st')"
    using r2 len by (simp_all add: nth_append)
  have "kOutputAsBinary st' = kOutputAsBinary st"
    using compile_lines_binary [OF more] compile_line_binary [OF one] by simp
  with nb have nb': "\<not> kOutputAsBinary st'" by simp
  have "kUndefinedSymbols st' = kUndefinedSymbols st"
    using compile_lines_undefined_symbols [OF more] compile_line_undefined_symbols [OF one] by simp
  with a have us: "kUndefinedSymbols st' = []" by simp
  from at(3) have ne: "kRecords st' \<noteq> []" by auto
  from write_output_records [OF nb' ne us, of P obj] obtain hdr written where
    w: "write_output P obj st' =
             \<lparr>status = Inr 0,
              outputs = [obj \<mapsto> \<lparr>of_header = Some hdr, of_records = written, of_code = kBytes st'\<rparr>]\<rparr>"
    "fCount hdr = length (kRecords st')"
    "map fName written = map fName (kRecords st')"
    "map fKind written = map fKind (kRecords st')"
    by blast
  from w(3) have lw: "length written = length (kRecords st')"
    using map_eq_imp_length_eq by blast
  have "fName (written ! length (kRecords st)) = fName (kRecords st' ! length (kRecords st))"
    using w(3) at(3) lw by (metis nth_map)
  moreover have "fKind (written ! length (kRecords st)) = fKind (kRecords st' ! length (kRecords st))"
    using w(4) at(3) lw by (metis nth_map)
  ultimately show "\<exists>hdr written.
             write_output P obj st' =
               \<lparr>status = Inr 0,
                outputs = [obj \<mapsto> \<lparr>of_header = Some hdr, of_records = written,
                                     of_code = kBytes st'\<rparr>]\<rparr>
             \<and> fCount hdr = length (kRecords st')
             \<and> map fName written = map fName (kRecords st')
             \<and> map fKind written = map fKind (kRecords st')
             \<and> length (kRecords st) < length written
             \<and> fName (written ! length (kRecords st)) = to_string (length name) @ '':ld:'' @ mangled
             \<and> fKind (written ! length (kRecords st)) = kind"
    using w at lw cur by (intro exI [of _ hdr] exI [of _ written]) simp
qed

theorem import_directive_pushes_record_witness:
  "\<exists>st st'.
     compile_lines example_platform ''a.s'' [''export .text foo'', ''add r1, r2'']
       (initial_state example_platform False) = Inr st
     \<and> map_sum id kRecords (asm_read_attributes example_platform ''import .data a b,c'' st)
         = Inr [\<lparr>fName = ''.text$foo'', fKind = 12, fSize = 5, fFlags = 0, fOffset = 0\<rparr>,
                \<lparr>fName = ''11:ld:.data$a$b$c'', fKind = 13, fSize = 0, fFlags = 0, fOffset = 0\<rparr>]
     \<and> asm_read_attributes example_platform ''import .data a b,c'' (st\<lparr>kOutputAsBinary := True\<rparr>)
         = Inl (Thrown ''invalid_import_bin'')
     \<and> compile_lines example_platform ''a.s'' [''import .data a b,c'', ''export .text baz''] st
         = Inr st'
     \<and> (\<exists>written.
           map_option of_records (outputs (write_output example_platform ''a.o'' st') ''a.o'')
             = Some written
           \<and> length written = 3
           \<and> fName (written ! 1) = ''11:ld:.data$a$b$c''
           \<and> fKind (written ! 1) = 13)"
proof -
  let ?P = example_platform
  let ?line = "''import .data a b,c''"
  let ?r0 = "\<lparr>fName = ''.text$foo'', fKind = 12, fSize = 0, fFlags = 0, fOffset = 0\<rparr>"
  have "\<exists>st. compile_lines ?P ''a.s'' [''export .text foo'', ''add r1, r2'']
            (initial_state ?P False) = Inr st
          \<and> kRecords st = [?r0] \<and> kCurrentRecord st = ?r0 \<and> length (kBytes st) = 5
          \<and> \<not> kOutputAsBinary st \<and> kUndefinedSymbols st = []
          \<and> kAcceptableErrors st = 0 \<and> kErrorLimit st = 10"
    by (simp add: run_defs set_last_size_def)
  then obtain st where pre: "compile_lines ?P ''a.s'' [''export .text foo'', ''add r1, r2'']
            (initial_state ?P False) = Inr st"
    and st: "kRecords st = [?r0]" "kCurrentRecord st = ?r0" "length (kBytes st) = 5"
      "\<not> kOutputAsBinary st" "kUndefinedSymbols st = []"
      "kAcceptableErrors st = 0" "kErrorLimit st = 10"
    by blast
  have fw: "find_word ?P ?line ''import ''" and pos: "str_find ''import '' ?line = Some 0"
    by (simp_all add: example_defs)
  have chk: "fst (CheckLine ?P ?line) = [] \<and> snd (CheckLine ?P ?line) = ?line"
    by (simp add: check_defs char_defs example_defs)
  have kinds: "\<not> sublist ''.text'' ''.data$a$b$c''" "sublist ''.data'' ''.data$a$b$c''"
    by (simp_all add: str_find_sublist [symmetric])
  note inst = import_directive_pushes_record [where P = ?P and line = ?line and i = 0
      and f = "''a.s''", OF fw pos refl refl refl refl refl]
  have a: "map_sum id kRecords (asm_read_attributes ?P ?line st)
         = Inr [?r0\<lparr>fSize := 5\<rparr>,
                \<lparr>fName = ''11:ld:.data$a$b$c'', fKind = 13, fSize = 0, fFlags = 0, fOffset = 0\<rparr>]"
    using inst [of st, THEN conjunct1] st kinds
    by (simp add: example_platform_def to_string.simps char_of_def bit_Suc_0_iff)
  have b: "asm_read_attributes ?P ?line (st\<lparr>kOutputAsBinary := True\<rparr>)
         = Inl (Thrown ''invalid_import_bin'')"
    using inst [of "st\<lparr>kOutputAsBinary := True\<rparr>", THEN conjunct1] st
    by simp
  have "\<exists>st'. compile_lines ?P ''a.s'' [?line, ''export .text baz''] st = Inr st'"
    using st by (simp add: run_defs to_string.simps)
  then obtain st' where run: "compile_lines ?P ''a.s'' [?line, ''export .text baz''] st = Inr st'"
    by blast
  have recs: "length (kRecords st') = 3"
    using run st by (auto simp add: run_defs to_string.simps set_last_size_def)
  from inst [of st, THEN conjunct2, rule_format, of ?line "[''export .text baz'']" st' "''a.o''"]
    chk st(5) run
  obtain hdr written where
    w: "write_output ?P ''a.o'' st' =
          \<lparr>status = Inr 0,
           outputs = [''a.o'' \<mapsto> \<lparr>of_header = Some hdr, of_records = written,
                                    of_code = kBytes st'\<rparr>]\<rparr>"
      "map fName written = map fName (kRecords st')"
      "fName (written ! length (kRecords st)) =
         to_string (length (drop (0 + 7) ?line)) @ '':ld:''
           @ map (\<lambda>c. if c = CHR '' '' \<or> c = CHR '','' then CHR ''$'' else c) (drop (0 + 7) ?line)"
      "fKind (written ! length (kRecords st)) =
         (if map (\<lambda>c. if c = CHR '' '' \<or> c = CHR '','' then CHR ''$'' else c) (drop (0 + 7) ?line)
               = ''__start''
             \<or> sublist ''.text''
                 (map (\<lambda>c. if c = CHR '' '' \<or> c = CHR '','' then CHR ''$'' else c) (drop (0 + 7) ?line))
          then kPefCode ?P
          else if sublist ''.data''
                 (map (\<lambda>c. if c = CHR '' '' \<or> c = CHR '','' then CHR ''$'' else c) (drop (0 + 7) ?line))
          then kPefData ?P
          else if sublist ''.page_zero''
                 (map (\<lambda>c. if c = CHR '' '' \<or> c = CHR '','' then CHR ''$'' else c) (drop (0 + 7) ?line))
          then kPefZero ?P
          else fKind (kCurrentRecord st))"
    by blast
  from w(2) have "length written = length (kRecords st')"
    using map_eq_imp_length_eq by blast
  with recs have len: "length written = 3" by simp
  have n: "fName (written ! 1) = ''11:ld:.data$a$b$c''"
    using w(3) st(1) by (simp add: to_string.simps char_of_def bit_Suc_0_iff)
  have k: "fKind (written ! 1) = 13"
    using w(4) st(1) kinds by (simp add: example_platform_def)
  have "map_option of_records (outputs (write_output ?P ''a.o'' st') ''a.o'') = Some written"
    using w(1) by simp
  with pre a b run len n k show ?thesis
    by (intro exI [of _ st] exI [of _ st']) auto
qed

text \<open>
  Claim C1 as stated fails: the record of \<open>import bar\<close> is written between the records of
  the two exports, with the kind of the section before it and not with the invalid-opcode
  sentinel, and no record follows the real ones.
\<close>

theorem import_record_counterexample:
  "map_option of_records
     (outputs (MPUXAssembler64000 example_platform [''64asm'', ''a.s'']
        [''a.s'' \<mapsto> [''export .text foo'', ''import bar'', ''export .data baz'']] False) ''a.o'')
     = Some [\<lparr>fName = ''.text$foo'', fKind = 12, fSize = 0, fFlags = 847, fOffset = 0\<rparr>,
             \<lparr>fName = ''3:ld:bar'', fKind = 12, fSize = 0, fFlags = 847, fOffset = 1\<rparr>,
             \<lparr>fName = ''.data$baz'', fKind = 13, fSize = 0, fFlags = 847, fOffset = 2\<rparr>]
   \<and> kAEInvalidOpcode = 0"
  by (simp add: output_defs compile_line_def check_defs directive_defs char_defs example_defs
      encode_defs Let_def to_string.simps char_of_def bit_Suc_0_iff)

subsection \<open>One file for each invocation\<close>





subsection \<open>Register tokens\<close>

lemma isdigit_facts:
  assumes "isdigit c"
  shows "c \<noteq> CHR ''-''" "c \<noteq> CHR ''+''" "\<not> isspace c"
    "digit_val c = Some (of_char c - 48)" "(of_char c :: nat) - 48 < 10"
  using assms by (auto simp add: isdigit_def isspace_def digit_val_def Let_def)

lemma strtoq_one:
  assumes "isdigit d1"
  shows "strtoq [d1] 10 = (int (dec_value [d1]), False)"
proof -
  have "(of_char d1 :: nat) - 48 < 10"
    using assms by (rule isdigit_facts)
  then have "\<not> 9223372036854775807 < int (of_char d1 - 48)"
    by linarith
  then show ?thesis
    using assms by (simp add: strtoq_def str_at_def isdigit_facts dec_value_def Let_def)
qed

lemma strtoq_two:
  assumes "isdigit d1" and "isdigit d2"
  shows "strtoq [d1, d2] 10 = (int (dec_value [d1, d2]), False)"
proof -
  have "(of_char d1 :: nat) - 48 < 10" and "(of_char d2 :: nat) - 48 < 10"
    using assms by (auto intro: isdigit_facts)
  then have "\<not> 9223372036854775807 < int (of_char d1 - 48) * 10 + int (of_char d2 - 48)"
    by linarith
  then show ?thesis
    using assms by (simp add: strtoq_def str_at_def isdigit_facts dec_value_def Let_def)
qed

lemma not_isdigit_null [simp]: "\<not> isdigit (CHR 0x00)"
  by (simp add: isdigit_def)

text \<open>The token at a register prefix, by what the scan reads of the rest of the line.\<close>

lemma token_by_chars:
  assumes "isdigit (str_at rest 0)"
  shows "takeWhile isdigit (take 3 rest) =
     str_at rest 0 # (if isdigit (str_at rest 1)
                      then str_at rest 1 # (if isdigit (str_at rest 2) then [str_at rest 2] else [])
                      else [])"
proof (cases rest)
  case Nil
  with assms show ?thesis by (simp add: str_at_def)
next
  case (Cons d1 r1)
  show ?thesis
  proof (cases r1)
    case Nil
    with Cons assms show ?thesis by (simp add: str_at_def)
  next
    case (Cons d2 r2)
    show ?thesis
    proof (cases r2)
      case Nil
      with \<open>rest = d1 # r1\<close> \<open>r1 = d2 # r2\<close> assms show ?thesis by (simp add: str_at_def)
    next
      case (Cons d3 r3)
      with \<open>rest = d1 # r1\<close> \<open>r1 = d2 # r2\<close> assms show ?thesis
        by (simp add: str_at_def eval_nat_numeral)
    qed
  qed
qed

lemma scan_registers_eq:
  "scan_registers P f line st n =
     (if list_all (register_ok P) (register_tokens line)
      then Inr (st\<lparr>kBytes := kBytes st @ map (\<lambda>t. char_of (dec_value t)) (register_tokens line)\<rparr>,
                n + length (register_tokens line))
      else if kAcceptableErrors st > kErrorLimit st then Inl (Exited 3)
      else Inl (Thrown ''invalid_register_index''))"
proof (induction line arbitrary: st n)
  case Nil
  then show ?case by simp
next
  case (Cons c rest)
  show ?case
  proof (cases "c = CHR ''r'' \<and> isdigit (str_at rest 0)")
    case False
    with Cons.IH [of st n] show ?thesis by auto
  next
    case True
    then have d1: "isdigit (str_at rest 0)" by simp
    note tok = token_by_chars [OF d1]
    show ?thesis
    proof (cases "isdigit (str_at rest 1)")
      case d2: True
      show ?thesis
      proof (cases "isdigit (str_at rest 2)")
        case d3: True
        with True d2 tok show ?thesis
          by (simp add: register_ok_def fatal_def print_error_def Let_def)
      next
        case nd3: False
        have v: "strtoq [str_at rest 0, str_at rest 1] 10
                   = (int (dec_value [str_at rest 0, str_at rest 1]), False)"
          using strtoq_two [OF d1 d2] .
        show ?thesis
        proof (cases "dec_value [str_at rest 0, str_at rest 1] > kAsmRegisterLimit P")
          case True
          with \<open>c = CHR ''r'' \<and> isdigit (str_at rest 0)\<close> d2 nd3 tok v show ?thesis
            by (simp add: register_ok_def fatal_def print_error_def Let_def)
        next
          case False
          with \<open>c = CHR ''r'' \<and> isdigit (str_at rest 0)\<close> d2 nd3 tok v
            Cons.IH [of "st\<lparr>kBytes := kBytes st
                              @ [char_of (dec_value [str_at rest 0, str_at rest 1])]\<rparr>" "n + 1"]
          show ?thesis
            by (simp add: register_ok_def Let_def)
        qed
      qed
    next
      case nd2: False
      have v: "strtoq [str_at rest 0] 10 = (int (dec_value [str_at rest 0]), False)"
        using strtoq_one [OF d1] .
      show ?thesis
      proof (cases "dec_value [str_at rest 0] > kAsmRegisterLimit P")
        case True
        with \<open>c = CHR ''r'' \<and> isdigit (str_at rest 0)\<close> nd2 tok v show ?thesis
          by (simp add: register_ok_def fatal_def print_error_def Let_def)
      next
        case False
        with \<open>c = CHR ''r'' \<and> isdigit (str_at rest 0)\<close> nd2 tok v
          Cons.IH [of "st\<lparr>kBytes := kBytes st @ [char_of (dec_value [str_at rest 0])]\<rparr>" "n + 1"]
        show ?thesis
          by (simp add: register_ok_def Let_def)
      qed
    qed
  qed
qed


lemma WriteLine_matched:
  "\<not> find_word P line ''export '' \<Longrightarrow> match_opcode P line = Some op \<Longrightarrow>
     WriteLine P line f st = WriteLine_opcode P op line f st"
  by (simp add: WriteLine_def)

lemma WriteLine_opcode_after_registers:
  assumes "WriteLine_opcode P op line f st = Inr st'"
  shows "\<exists>st1. write_registers P op line f
                 (st\<lparr>kBytes := kBytes st @ [fOpcode op, fFunct3 op, fFunct7 op]\<rparr>) = Inr st1
           \<and> prefix (kBytes st1) (kBytes st')"
proof -
  let ?st0 = "st\<lparr>kBytes := kBytes st @ [fOpcode op, fFunct3 op, fFunct7 op]\<rparr>"
  from assms obtain st1 where wr: "write_registers P op line f ?st0 = Inr st1"
    by (cases "write_registers P op line f ?st0") (auto simp add: WriteLine_opcode_def)
  from assms wr have
    "(write_operand P (opName op) line f st1 = Inr st') \<or> st' = asm_end_label_cpy st1"
    by (auto simp add: WriteLine_opcode_def split: if_splits)
  then have "prefix (kBytes st1) (kBytes st')"
    by (auto simp add: asm_end_label_cpy_def dest: write_operand_encodes encodes_fields)
  with wr show ?thesis by blast
qed

text \<open>
  Claim C7. For a line that matches an entry of kind \<open>kAsmRegToReg\<close> or \<open>kAsmImmediate\<close>:
  the scan pushes one byte for each register token, in the order of the line, where every
  token has one or two digits and a value within the register limit; a token of three
  digits, or a value above the limit, makes \<open>WriteLine\<close> end with the exception
  \<open>invalid_register_index\<close> (with the exit of the process where the error counter is above
  its limit); and where \<open>WriteLine\<close> returns, the bytes of the line start with the three
  bytes of the entry and the bytes of the tokens.
\<close>

theorem register_tokens_encoded:
  assumes "\<not> find_word P line ''export ''" and "match_opcode P line = Some op"
    and "fFunct7 op = kAsmRegToReg P \<or> fFunct7 op = kAsmImmediate P"
  shows "scan_registers P f line st 0 =
           (if list_all (register_ok P) (register_tokens line)
            then Inr (st\<lparr>kBytes := kBytes st
                          @ map (\<lambda>t. char_of (dec_value t)) (register_tokens line)\<rparr>,
                      length (register_tokens line))
            else if kAcceptableErrors st > kErrorLimit st then Inl (Exited 3)
            else Inl (Thrown ''invalid_register_index''))
    \<and> (\<not> list_all (register_ok P) (register_tokens line) \<longrightarrow>
          WriteLine P line f st =
            (if kAcceptableErrors st > kErrorLimit st then Inl (Exited 3)
             else Inl (Thrown ''invalid_register_index'')))
    \<and> (\<forall>st'. WriteLine P line f st = Inr st' \<longrightarrow>
          list_all (register_ok P) (register_tokens line)
          \<and> prefix (kBytes st @ [fOpcode op, fFunct3 op, fFunct7 op]
                      @ map (\<lambda>t. char_of (dec_value t)) (register_tokens line)) (kBytes st'))"
proof (intro conjI impI allI)
  show "scan_registers P f line st 0 =
           (if list_all (register_ok P) (register_tokens line)
            then Inr (st\<lparr>kBytes := kBytes st
                          @ map (\<lambda>t. char_of (dec_value t)) (register_tokens line)\<rparr>,
                      length (register_tokens line))
            else if kAcceptableErrors st > kErrorLimit st then Inl (Exited 3)
            else Inl (Thrown ''invalid_register_index''))"
    by (simp add: scan_registers_eq)
next
  assume "\<not> list_all (register_ok P) (register_tokens line)"
  with assms show "WriteLine P line f st =
            (if kAcceptableErrors st > kErrorLimit st then Inl (Exited 3)
             else Inl (Thrown ''invalid_register_index''))"
    by (simp add: WriteLine_matched WriteLine_opcode_def write_registers_def scan_registers_eq)
next
  fix st'
  assume ok: "WriteLine P line f st = Inr st'"
  let ?st0 = "st\<lparr>kBytes := kBytes st @ [fOpcode op, fFunct3 op, fFunct7 op]\<rparr>"
  from ok assms(1,2) have "WriteLine_opcode P op line f st = Inr st'"
    by (simp add: WriteLine_matched)
  from WriteLine_opcode_after_registers [OF this] obtain st1 where
    wr: "write_registers P op line f ?st0 = Inr st1" and pre: "prefix (kBytes st1) (kBytes st')"
    by blast
  from wr assms(3) have all: "list_all (register_ok P) (register_tokens line)"
    and st1: "st1 = ?st0\<lparr>kBytes := kBytes ?st0
                 @ map (\<lambda>t. char_of (dec_value t)) (register_tokens line)\<rparr>"
    by (auto simp add: write_registers_def scan_registers_eq
        split: if_splits dest: check_registers_same)
  from all show "list_all (register_ok P) (register_tokens line)" .
  from pre st1 show "prefix (kBytes st @ [fOpcode op, fFunct3 op, fFunct7 op]
                      @ map (\<lambda>t. char_of (dec_value t)) (register_tokens line)) (kBytes st')"
    by simp
qed

theorem register_tokens_encoded_witness:
  "scan_registers example_platform ''a.s'' ''add r1, r20'' (initial_state example_platform False) 0
     = Inr ((initial_state example_platform False)\<lparr>kBytes := [CHR 0x01, CHR 0x14]\<rparr>, 2)
   \<and> WriteLine example_platform ''add r1, r21'' ''a.s'' (initial_state example_platform False)
     = Inl (Thrown ''invalid_register_index'')
   \<and> WriteLine example_platform ''add r123, r1'' ''a.s'' (initial_state example_platform False)
     = Inl (Thrown ''invalid_register_index'')"
  using register_tokens_encoded
          [of example_platform "''add r1, r20''" "example_opcodes ! 4" "''a.s''"
             "initial_state example_platform False", THEN conjunct1]
        register_tokens_encoded
          [of example_platform "''add r1, r21''" "example_opcodes ! 4" "''a.s''"
             "initial_state example_platform False", THEN conjunct2, THEN conjunct1]
        register_tokens_encoded
          [of example_platform "''add r123, r1''" "example_opcodes ! 4" "''a.s''"
             "initial_state example_platform False", THEN conjunct2, THEN conjunct1]
  by (simp add: example_defs match_opcode_def is_valid_def char_defs register_ok_def
      dec_value_def str_at_def initial_state_def char_of_def bit_Suc_0_iff)

subsection \<open>Relocation entries\<close>

lemma operand_loop_subset:
  "operand_loop f jl fs st = Inr cpy \<Longrightarrow> set cpy \<subseteq> set jl"
proof (induction f jl fs st rule: operand_loop.induct)
  case (1 f jl fs st)
  show ?case
  proof (cases "str_find '','' jl")
    case None
    with "1.prems" show ?thesis by (simp add: operand_loop.simps)
  next
    case (Some i)
    let ?jl1 = "erase_spaces (drop (i + 1) jl)"
    have sub: "set ?jl1 \<subseteq> set jl"
      by (auto simp add: erase_spaces_def dest: in_set_dropD)
    from "1.prems" Some have ne: "?jl1 \<noteq> []"
      by (auto simp add: operand_loop.simps [of f jl] Let_def split: if_splits)
    show ?thesis
    proof (cases "str_at ?jl1 0 \<noteq> CHR ''r'' \<and> \<not> isdigit (str_at ?jl1 1)")
      case True
      with "1.prems" Some ne have nf: "\<not> fs" and "operand_loop f ?jl1 True st = Inr cpy"
        by (auto simp add: operand_loop.simps [of f jl] Let_def split: if_splits)
      with "1.IH"(1) [OF Some refl ne True nf] sub show ?thesis by blast
    next
      case False
      with "1.prems" Some ne have "operand_loop f ?jl1 fs st = Inr cpy"
        by (auto simp add: operand_loop.simps [of f jl] Let_def split: if_splits)
      with "1.IH"(2) [OF Some refl ne False] sub show ?thesis by blast
    qed
  qed
qed

lemma operand_loop_state:
  "operand_loop f jl fs st = Inr cpy \<Longrightarrow> operand_loop f' jl fs st' = Inr cpy"
proof (induction f jl fs st rule: operand_loop.induct)
  case (1 f jl fs st)
  show ?case
  proof (cases "str_find '','' jl")
    case None
    with "1.prems" show ?thesis by (simp add: operand_loop.simps)
  next
    case (Some i)
    let ?jl1 = "erase_spaces (drop (i + 1) jl)"
    from "1.prems" Some have ne: "?jl1 \<noteq> []"
      by (auto simp add: operand_loop.simps [of f jl] Let_def split: if_splits)
    show ?thesis
    proof (cases "str_at ?jl1 0 \<noteq> CHR ''r'' \<and> \<not> isdigit (str_at ?jl1 1)")
      case True
      with "1.prems" Some ne have nf: "\<not> fs" and "operand_loop f ?jl1 True st = Inr cpy"
        by (auto simp add: operand_loop.simps [of f jl] Let_def split: if_splits)
      with "1.IH"(1) [OF Some refl ne True nf] Some ne True show ?thesis
        by (simp add: operand_loop.simps [of f' jl] Let_def)
    next
      case False
      with "1.prems" Some ne have "operand_loop f ?jl1 fs st = Inr cpy"
        by (auto simp add: operand_loop.simps [of f jl] Let_def split: if_splits)
      with "1.IH"(2) [OF Some refl ne False] Some ne False show ?thesis
        by (auto simp add: operand_loop.simps [of f' jl] Let_def)
    qed
  qed
qed






lemma str_find_longer:
  "str_find (a @ b) s = Some i \<Longrightarrow> str_find a s \<noteq> None"
  by (induction s arbitrary: i) (auto split: if_splits dest: append_prefixD)

text \<open>
  The copy loop drops a backslash and the character after it. A line that is encoded
  holds no backslash, so that the loop copies every character of an entry.
\<close>

lemma copy_reloc_drops_escaped: "copy_reloc [CHR ''a'', CHR 0x5C, CHR ''b'', CHR ''c''] False = ''ac''"
  by simp














end
